theory Spec2Isabelle
  imports Main
begin

section \<open>JavaScript values and strings\<close>

text \<open>
  The bridge server of \<^verbatim>\<open>src/lib/server.ts\<close> is embedded as pure functions over an
  explicit server state. A JavaScript string is the list of its UTF-16 code units, so
  that \<^verbatim>\<open>trim\<close>, \<^verbatim>\<open>includes\<close> and the regular expression of the
  \<^verbatim>\<open>eval\<close> handler see what the engine sees; \<open>u\<close> reads an ASCII literal.
\<close>

type_synonym jsstring = "nat list"

definition u :: "string \<Rightarrow> jsstring" where
  "u s = map of_char s"

text \<open>
  The values a request, a handler result or a response can hold: what
  \<^verbatim>\<open>JSON.parse\<close> produces, and \<^verbatim>\<open>undefined\<close>. \<open>Num\<close> holds the
  integer-valued numbers.
\<close>

datatype jsval =
    Undefined
  | Null
  | Bool bool
  | Num int
  | Str jsstring
  | Arr "jsval list"
  | Obj "(jsstring \<times> jsval) list"

text \<open>
  A thrown value: an \<^verbatim>\<open>Error\<close> instance with its name and message, or any other
  value (\<^verbatim>\<open>throw "x"\<close>).
\<close>

datatype exn = Error jsstring jsstring | Thrown jsval

text \<open>
  What a handler or a script can throw: such a value, or one of two that the catch block
  of the connection handler cannot report: an object without a prototype
  (\<^verbatim>\<open>Object.create(null)\<close>, for which \<^verbatim>\<open>String(error)\<close> throws), and an
  \<^verbatim>\<open>Error\<close> of the given name whose \<^verbatim>\<open>message\<close> is a BigInt (which
  \<^verbatim>\<open>JSON.stringify\<close> refuses).
\<close>

datatype thrown = Plain exn | BareObject | BigIntError jsstring int

text \<open>
  What awaiting a promise gives: a value, an exception, or nothing at all when the
  promise never settles.
\<close>

datatype 'a outcome = Returned 'a | Threw thrown | Pending

fun digits :: "nat \<Rightarrow> jsstring" where
  "digits n = (if n < 10 then [48 + n] else digits (n div 10) @ [48 + n mod 10])"

declare digits.simps [simp del]

text \<open>
  \<^verbatim>\<open>String(n)\<close> of an integer-valued number. A number is a double, so \<open>Num n\<close> stands
  for an integer that a double holds (below \<open>2 ^ 1024\<close>). JavaScript prints the decimal
  with the fewest significant digits that still rounds to the number (the closest one
  when there are several), in plain digits up to 21 of them and in exponent form beyond.
  \<open>to_double m\<close> is the double nearest to the integer \<open>m\<close>, ties to the even
  significand; \<open>pick x p\<close> is the multiple of \<open>p\<close> nearest to \<open>x\<close> that rounds to \<open>x\<close>;
  \<open>shortest x\<close> tries the powers of ten from the largest down.
\<close>

fun bitlen :: "nat \<Rightarrow> nat" where
  "bitlen n = (if n = 0 then 0 else Suc (bitlen (n div 2)))"

declare bitlen.simps [simp del]

definition to_double :: "nat \<Rightarrow> nat" where
  "to_double m =
     (if m < 2 ^ 53 then m
      else let e = bitlen m - 53; q = m div 2 ^ e; r = m mod 2 ^ e; half = 2 ^ (e - 1)
           in (if half < r \<or> (r = half \<and> odd q) then q + 1 else q) * 2 ^ e)"

definition pick :: "nat \<Rightarrow> nat \<Rightarrow> nat option" where
  "pick x p =
     (let lo = x div p; hi = lo + 1; dl = x - lo * p; dh = hi * p - x;
          fl = (to_double (lo * p) = x); fh = (to_double (hi * p) = x)
      in if fl \<and> fh then Some (if dl < dh \<or> (dl = dh \<and> even lo) then lo * p else hi * p)
         else if fl then Some (lo * p)
         else if fh then Some (hi * p)
         else None)"

fun shortest_from :: "nat \<Rightarrow> nat \<Rightarrow> nat" where
  "shortest_from x 0 = x"
| "shortest_from x (Suc e) =
     (case pick x (10 ^ Suc e) of Some v \<Rightarrow> v | None \<Rightarrow> shortest_from x e)"

definition shortest :: "nat \<Rightarrow> nat" where
  "shortest x = shortest_from x (length (digits x) - 1)"

definition strip_zeros :: "jsstring \<Rightarrow> jsstring" where
  "strip_zeros ds = rev (dropWhile (\<lambda>c. c = 48) (rev ds))"

definition number_str :: "nat \<Rightarrow> jsstring" where
  "number_str x =
     (let ds = digits (shortest x); n = length ds
      in if n \<le> 21 then ds
         else (case strip_zeros ds of
                 [] \<Rightarrow> ds
               | d # rest \<Rightarrow> (d # (if rest = [] then [] else 46 # rest)) @ u ''e+'' @ digits (n - 1)))"

definition int_str :: "int \<Rightarrow> jsstring" where
  "int_str i = (if i < 0 then 45 # number_str (nat (- i)) else number_str (nat i))"


fun join :: "jsstring \<Rightarrow> jsstring list \<Rightarrow> jsstring" where
  "join sep [] = []"
| "join sep [x] = x"
| "join sep (x # y # ys) = x @ sep @ join sep (y # ys)"

text \<open>\<^verbatim>\<open>String(v)\<close>, which is also what a template literal applies to \<^verbatim>\<open>${v}\<close>.\<close>

fun toStr :: "jsval \<Rightarrow> jsstring" and elemStrs :: "jsval list \<Rightarrow> jsstring list" where
  "toStr Undefined = u ''undefined''"
| "toStr Null = u ''null''"
| "toStr (Bool b) = (if b then u ''true'' else u ''false'')"
| "toStr (Num n) = int_str n"
| "toStr (Str s) = s"
| "toStr (Arr xs) = join (u '','') (elemStrs xs)"
| "toStr (Obj kvs) = u ''[object Object]''"
| "elemStrs [] = []"
| "elemStrs (x # xs) = (if x = Undefined \<or> x = Null then [] else toStr x) # elemStrs xs"

text \<open>\<^verbatim>\<open>String(err)\<close> of an exception: \<^verbatim>\<open>Error.prototype.toString\<close>.\<close>

fun exnStr :: "exn \<Rightarrow> jsstring" where
  "exnStr (Error name msg) =
     (if name = [] then msg else if msg = [] then name else name @ u '': '' @ msg)"
| "exnStr (Thrown v) = toStr v"

text \<open>\<^verbatim>\<open>error instanceof Error ? error.message : String(error)\<close>\<close>

fun errorMessage :: "exn \<Rightarrow> jsstring" where
  "errorMessage (Error name msg) = msg"
| "errorMessage (Thrown v) = toStr v"

fun truthy :: "jsval \<Rightarrow> bool" where
  "truthy Undefined = False"
| "truthy Null = False"
| "truthy (Bool b) = b"
| "truthy (Num n) = (n \<noteq> 0)"
| "truthy (Str s) = (s \<noteq> [])"
| "truthy (Arr xs) = True"
| "truthy (Obj kvs) = True"

text \<open>\<^verbatim>\<open>typeof v === 'object'\<close>\<close>

fun typeof_object :: "jsval \<Rightarrow> bool" where
  "typeof_object Null = True"
| "typeof_object (Arr xs) = True"
| "typeof_object (Obj kvs) = True"
| "typeof_object v = False"

text \<open>
  Reading a property \<^verbatim>\<open>v.k\<close>, for the property names the server reads
  (\<^verbatim>\<open>method\<close>, \<^verbatim>\<open>params\<close>, \<^verbatim>\<open>code\<close>, \<^verbatim>\<open>url\<close>,
  \<^verbatim>\<open>lines\<close>, ...): \<^verbatim>\<open>undefined\<close> and \<^verbatim>\<open>null\<close> throw a
  TypeError, an object gives the field or \<^verbatim>\<open>undefined\<close>, and a string, number,
  boolean or array has none of these names.
\<close>

definition typeError :: "jsstring \<Rightarrow> exn" where
  "typeError msg = Error (u ''TypeError'') msg"

fun get_prop :: "jsval \<Rightarrow> jsstring \<Rightarrow> exn + jsval" where
  "get_prop Undefined k =
     Inl (typeError (u ''Cannot read properties of undefined (reading '' @ [39] @ k @ [39] @ u '')''))"
| "get_prop Null k =
     Inl (typeError (u ''Cannot read properties of null (reading '' @ [39] @ k @ [39] @ u '')''))"
| "get_prop (Obj kvs) k = Inr (case map_of kvs k of None \<Rightarrow> Undefined | Some v \<Rightarrow> v)"
| "get_prop v k = Inr Undefined"

text \<open>\<^verbatim>\<open>'k' in v\<close> for a value with \<^verbatim>\<open>typeof v === 'object'\<close> that is not null.\<close>

fun has_prop :: "jsstring \<Rightarrow> jsval \<Rightarrow> bool" where
  "has_prop k (Obj kvs) = (k \<in> fst ` set kvs)"
| "has_prop k v = False"

section \<open>Server state and the output history\<close>

datatype progress_event = Executing jsval | Ready nat

text \<open>
  The calls the server makes into its collaborators, in the order it makes them, and the
  rejections of a listener's promise, which nothing handles.
\<close>

datatype effect =
    Progress progress_event
  | RestartScheduled
  | OpenView jsval jsval jsval
  | Post jsval jsstring
  | Unhandled exn

text \<open>
  The closure state of \<^verbatim>\<open>startBridgeServer\<close>: the \<^verbatim>\<open>Set\<close> of subscribers in
  insertion order, \<^verbatim>\<open>outputHistory\<close>, the lines handed on to the channel's original
  \<^verbatim>\<open>appendLine\<close>, and the trace of calls to collaborators.
\<close>

record server =
  subscribers :: "jsval list"
  outputHistory :: "jsstring list"
  channel :: "jsstring list"
  effects :: "effect list"

text \<open>
  The wrapped \<^verbatim>\<open>outputChannel.appendLine\<close>: \<^verbatim>\<open>push\<close>, then
  \<^verbatim>\<open>shift\<close> when the length exceeds 1000, then the original \<^verbatim>\<open>appendLine\<close>.
\<close>

definition push_shift :: "jsstring list \<Rightarrow> jsstring \<Rightarrow> jsstring list" where
  "push_shift h v = (let h' = h @ [v] in if length h' > 1000 then tl h' else h')"

definition appendLine :: "jsstring \<Rightarrow> server \<Rightarrow> server" where
  "appendLine v s =
     s\<lparr>outputHistory := push_shift (outputHistory s) v, channel := channel s @ [v]\<rparr>"

definition appendLines :: "jsstring list \<Rightarrow> server \<Rightarrow> server" where
  "appendLines vs s = foldl (\<lambda>s v. appendLine v s) s vs"

definition emit :: "effect \<Rightarrow> server \<Rightarrow> server" where
  "emit e s = s\<lparr>effects := effects s @ [e]\<rparr>"

definition fresh :: server where
  "fresh = \<lparr>subscribers = [], outputHistory = [], channel = [], effects = []\<rparr>"

section \<open>The collaborators\<close>

datatype level = Log | ErrorLevel | Warn

type_synonym console_call = "level \<times> jsval list"

text \<open>
  What the server takes from outside, as parameters of the model:
  \<^item> \<open>script code\<close>: compiling \<open>code\<close> with the \<^verbatim>\<open>AsyncFunction\<close> constructor and
    awaiting the call, as the calls it made on its \<^verbatim>\<open>console\<close> argument and the
    outcome (a \<^verbatim>\<open>SyntaxError\<close> of the constructor is an exception with no call);
  \<^item> the webview manager (absent when falsy), whose \<^verbatim>\<open>openView\<close> may throw;
  \<^item> the three config handlers, each with the outcome of the promise that
    \<^verbatim>\<open>executeCommand\<close> returns for it;
  \<^item> \<open>status_snapshot\<close>: what the \<^verbatim>\<open>status\<close> handler makes of its reads of the
    editor, the terminals and the clock: the snapshot object, or the exception of a read;
  \<^item> \<^verbatim>\<open>JSON.stringify(v)\<close>, \<^verbatim>\<open>JSON.stringify(v, null, 2)\<close>,
    \<^verbatim>\<open>JSON.parse\<close> and the conversion of a string to a number
    (\<open>None\<close> is \<^verbatim>\<open>NaN\<close>).
\<close>

record host =
  script :: "jsstring \<Rightarrow> console_call list \<times> jsval outcome"
  webviewManager :: "(jsval \<Rightarrow> jsval \<Rightarrow> jsval \<Rightarrow> thrown option) option"
  config_register :: "jsval \<Rightarrow> jsval \<Rightarrow> jsval outcome"
  config_unregister :: "jsval \<Rightarrow> jsval outcome"
  config_list :: "jsval outcome"
  status_snapshot :: "jsval outcome"
  stringify :: "jsval \<Rightarrow> jsstring"
  stringify2 :: "jsval \<Rightarrow> jsstring"
  json_parse :: "jsstring \<Rightarrow> exn + jsval"
  string_to_number :: "jsstring \<Rightarrow> int option"

section \<open>The eval handler's source text\<close>

text \<open>
  \<^verbatim>\<open>String.prototype.trim\<close> strips the code units of WhiteSpace and LineTerminator
  from both ends.
\<close>

definition is_space :: "nat \<Rightarrow> bool" where
  "is_space c =
     (c = 9 \<or> c = 10 \<or> c = 11 \<or> c = 12 \<or> c = 13 \<or> c = 32 \<or> c = 160 \<or> c = 5760 \<or>
      (8192 \<le> c \<and> c \<le> 8202) \<or> c = 8232 \<or> c = 8233 \<or> c = 8239 \<or> c = 8287 \<or>
      c = 12288 \<or> c = 65279)"

definition trim :: "jsstring \<Rightarrow> jsstring" where
  "trim s = rev (dropWhile is_space (rev (dropWhile is_space s)))"

text \<open>
  \<^verbatim>\<open>/\breturn\b/.test(code)\<close>: the regular expression has no flag, so a word
  character is one of \<^verbatim>\<open>[A-Za-z0-9_]\<close>. \<open>return_at prev s\<close> is a match at the
  head of \<open>s\<close>, \<open>prev\<close> telling whether the code unit before it is a word character;
  \<open>return_from\<close> tries every position from left to right.
\<close>

definition is_word :: "nat \<Rightarrow> bool" where
  "is_word c = ((48 \<le> c \<and> c \<le> 57) \<or> (65 \<le> c \<and> c \<le> 90) \<or> c = 95 \<or> (97 \<le> c \<and> c \<le> 122))"

definition return_at :: "bool \<Rightarrow> jsstring \<Rightarrow> bool" where
  "return_at prev s =
     (\<not> prev \<and> take 6 s = u ''return'' \<and> (case drop 6 s of [] \<Rightarrow> True | c # cs \<Rightarrow> \<not> is_word c))"

fun return_from :: "bool \<Rightarrow> jsstring \<Rightarrow> bool" where
  "return_from prev [] = False"
| "return_from prev (c # cs) = (return_at prev (c # cs) \<or> return_from (is_word c) cs)"

definition hasExplicitReturn :: "jsstring \<Rightarrow> bool" where
  "hasExplicitReturn code = return_from False code"

definition isSingleExpression :: "jsstring \<Rightarrow> bool" where
  "isSingleExpression code = (10 \<notin> set code \<and> 59 \<notin> set code)"

text \<open>
  The text handed to the \<^verbatim>\<open>AsyncFunction\<close> constructor, from the trimmed code.
\<close>

definition wrap_code :: "jsstring \<Rightarrow> jsstring" where
  "wrap_code code =
     (if \<not> hasExplicitReturn code \<and> isSingleExpression code
      then u ''return ('' @ code @ u '')'' else code)"

text \<open>\<^verbatim>\<open>cmdParams.code.trim()\<close>, with the TypeErrors of a missing or non-string code.\<close>

definition code_trim :: "jsval \<Rightarrow> exn + jsstring" where
  "code_trim p =
     (case get_prop p (u ''code'') of
        Inl e \<Rightarrow> Inl e
      | Inr c \<Rightarrow>
          (case c of
             Str s \<Rightarrow> Inr (trim s)
           | Undefined \<Rightarrow> Inl (typeError (u ''Cannot read properties of undefined (reading '' @ [39] @ u ''trim'' @ [39] @ u '')''))
           | Null \<Rightarrow> Inl (typeError (u ''Cannot read properties of null (reading '' @ [39] @ u ''trim'' @ [39] @ u '')''))
           | _ \<Rightarrow> Inl (typeError (u ''cmdParams.code.trim is not a function''))))"

fun level_prefix :: "level \<Rightarrow> jsstring" where
  "level_prefix Log = u ''[eval] ''"
| "level_prefix ErrorLevel = u ''[eval:error] ''"
| "level_prefix Warn = u ''[eval:warn] ''"

definition console_line :: "host \<Rightarrow> console_call \<Rightarrow> jsstring" where
  "console_line h c =
     level_prefix (fst c) @
     join (u '' '') (map (\<lambda>a. if typeof_object a then stringify2 h a else toStr a) (snd c))"

section \<open>The subscriber set\<close>

text \<open>
  A \<^verbatim>\<open>Set\<close> compares with SameValueZero: primitives by value, objects and arrays
  by identity. Every object that reaches the set was just built by \<^verbatim>\<open>JSON.parse\<close>,
  so it is the same as no member.
\<close>

fun primitive :: "jsval \<Rightarrow> bool" where
  "primitive (Arr xs) = False"
| "primitive (Obj kvs) = False"
| "primitive v = True"

definition same_value :: "jsval \<Rightarrow> jsval \<Rightarrow> bool" where
  "same_value a b = (primitive a \<and> a = b)"

definition set_add :: "jsval list \<Rightarrow> jsval \<Rightarrow> jsval list" where
  "set_add S v = (if list_ex (same_value v) S then S else S @ [v])"

definition set_delete :: "jsval list \<Rightarrow> jsval \<Rightarrow> jsval list" where
  "set_delete S v = filter (\<lambda>w. \<not> same_value v w) S"

section \<open>Array.prototype.slice\<close>

text \<open>\<^verbatim>\<open>-v\<close> first converts \<open>v\<close> to a number; \<open>None\<close> is \<^verbatim>\<open>NaN\<close>.\<close>

fun to_number :: "host \<Rightarrow> jsval \<Rightarrow> int option" where
  "to_number h Undefined = None"
| "to_number h Null = Some 0"
| "to_number h (Bool b) = Some (if b then 1 else 0)"
| "to_number h (Num n) = Some n"
| "to_number h (Str s) = string_to_number h s"
| "to_number h v = string_to_number h (toStr v)"

text \<open>
  \<^verbatim>\<open>xs.slice(start)\<close>: \<^verbatim>\<open>NaN\<close> counts as 0, a negative start counts from
  the end, and the start is clamped to the array.
\<close>

definition slice_from :: "'a list \<Rightarrow> int option \<Rightarrow> 'a list" where
  "slice_from xs start =
     (let len = int (length xs);
          rel = (case start of None \<Rightarrow> 0 | Some r \<Rightarrow> r);
          k = (if rel < 0 then max (len + rel) 0 else min rel len)
      in drop (nat k) xs)"

section \<open>The command dispatcher\<close>

text \<open>The glyphs of the log lines and of the default webview title, as code units.\<close>

definition check_mark :: jsstring where "check_mark = [10003]"
definition cross_mark :: jsstring where "cross_mark = [10006]"
definition right_arrow :: jsstring where "right_arrow = [8594]"
definition left_arrow :: jsstring where "left_arrow = [8592]"
definition tree_glyph :: jsstring where "tree_glyph = [55356, 57138]"

definition error_result :: "jsstring \<Rightarrow> jsval" where
  "error_result msg = Obj [(u ''error'', Str msg)]"

definition restartExtension_handler :: "server \<Rightarrow> jsval outcome \<times> server" where
  "restartExtension_handler s =
     (Returned (Obj [(u ''success'', Bool True),
                     (u ''message'', Str (u ''Extension host will restart''))]),
      emit RestartScheduled s)"

definition eval_handler :: "host \<Rightarrow> jsval \<Rightarrow> server \<Rightarrow> jsval outcome \<times> server" where
  "eval_handler h p s =
     (case code_trim p of
        Inl e \<Rightarrow> (Threw (Plain e), s)
      | Inr code \<Rightarrow>
          (let run = script h (wrap_code code)
           in (snd run, appendLines (map (console_line h) (fst run)) s)))"

definition webview_handler :: "host \<Rightarrow> jsval \<Rightarrow> server \<Rightarrow> jsval outcome \<times> server" where
  "webview_handler h p s =
     (case webviewManager h of
        None \<Rightarrow> (Returned (error_result (u ''WebviewManager not initialized'')), s)
      | Some openView \<Rightarrow>
          (case get_prop p (u ''viewName'') of
             Inl e \<Rightarrow> (Threw (Plain e), s)
           | Inr viewName \<Rightarrow>
               if \<not> truthy viewName
               then (Returned (error_result (u ''viewName parameter required'')), s)
               else
                 (let t = (case get_prop p (u ''title'') of Inr v \<Rightarrow> v | Inl e \<Rightarrow> Undefined);
                      title = (if truthy t then t else Str (tree_glyph @ u '' '' @ toStr viewName));
                      customPath = (case get_prop p (u ''customPath'') of Inr v \<Rightarrow> v | Inl e \<Rightarrow> Undefined);
                      s' = emit (OpenView viewName title customPath) s
                  in case openView viewName title customPath of
                       Some t \<Rightarrow> (Threw t, s')
                     | None \<Rightarrow>
                         (Returned (Obj [(u ''success'', Bool True), (u ''webview'', viewName)]), s'))))"

definition registerConfig_handler :: "host \<Rightarrow> jsval \<Rightarrow> server \<Rightarrow> jsval outcome \<times> server" where
  "registerConfig_handler h p s =
     (case get_prop p (u ''name'') of
        Inl e \<Rightarrow> (Threw (Plain e), s)
      | Inr name \<Rightarrow>
          (let filePath = (case get_prop p (u ''filePath'') of Inr v \<Rightarrow> v | Inl e \<Rightarrow> Undefined)
           in if \<not> truthy name \<or> \<not> truthy filePath
              then (Returned (error_result (u ''name and filePath required'')), s)
              else (config_register h name filePath, s)))"

definition unregisterConfig_handler :: "host \<Rightarrow> jsval \<Rightarrow> server \<Rightarrow> jsval outcome \<times> server" where
  "unregisterConfig_handler h p s =
     (case get_prop p (u ''name'') of
        Inl e \<Rightarrow> (Threw (Plain e), s)
      | Inr name \<Rightarrow>
          if \<not> truthy name then (Returned (error_result (u ''name required'')), s)
          else (config_unregister h name, s))"

definition subscribe_handler :: "jsval \<Rightarrow> server \<Rightarrow> jsval outcome \<times> server" where
  "subscribe_handler p s =
     (case get_prop p (u ''url'') of
        Inl e \<Rightarrow> (Threw (Plain e), s)
      | Inr url \<Rightarrow>
          if \<not> truthy url then (Returned (error_result (u ''url parameter required'')), s)
          else
            (let s1 = s\<lparr>subscribers := set_add (subscribers s) url\<rparr>;
                 s2 = appendLine (check_mark @ u '' Subscribed: '' @ toStr url) s1
             in (Returned (Obj [(u ''success'', Bool True),
                                (u ''message'', Str (u ''Subscribed to '' @ toStr url)),
                                (u ''subscribers'', Arr (subscribers s2))]), s2)))"

definition unsubscribe_handler :: "jsval \<Rightarrow> server \<Rightarrow> jsval outcome \<times> server" where
  "unsubscribe_handler p s =
     (case get_prop p (u ''url'') of
        Inl e \<Rightarrow> (Threw (Plain e), s)
      | Inr url \<Rightarrow>
          if \<not> truthy url then (Returned (error_result (u ''url parameter required'')), s)
          else
            (let s1 = s\<lparr>subscribers := set_delete (subscribers s) url\<rparr>;
                 s2 = appendLine (check_mark @ u '' Unsubscribed: '' @ toStr url) s1
             in (Returned (Obj [(u ''success'', Bool True),
                                (u ''message'', Str (u ''Unsubscribed from '' @ toStr url))]), s2)))"

definition listSubscribers_handler :: "server \<Rightarrow> jsval outcome \<times> server" where
  "listSubscribers_handler s =
     (Returned (Obj [(u ''success'', Bool True),
                     (u ''message'', Str (int_str (int (length (subscribers s))) @ u '' subscriber(s)'')),
                     (u ''subscribers'', Arr (subscribers s))]), s)"

text \<open>
  \<^verbatim>\<open>const lines = cmdParams.lines || 100\<close>, then
  \<^verbatim>\<open>outputHistory.slice(-lines)\<close> and \<^verbatim>\<open>outputHistory.length\<close>.
\<close>

definition getOutput_handler :: "host \<Rightarrow> jsval \<Rightarrow> server \<Rightarrow> jsval outcome \<times> server" where
  "getOutput_handler h p s =
     (case get_prop p (u ''lines'') of
        Inl e \<Rightarrow> (Threw (Plain e), s)
      | Inr l \<Rightarrow>
          (let lines = (if truthy l then l else Num 100);
               start = map_option uminus (to_number h lines)
           in (Returned (Obj [(u ''output'', Arr (map Str (slice_from (outputHistory s) start))),
                              (u ''total'', Num (int (length (outputHistory s))))]), s)))"

text \<open>The \<^verbatim>\<open>available\<close> array of the default branch, as the source lists it.\<close>

definition available :: "jsstring list" where
  "available =
     [u ''eval'', u ''webview'', u ''registerConfig'', u ''unregisterConfig'', u ''listConfigs'',
      u ''subscribe'', u ''unsubscribe'', u ''listSubscribers'', u ''status'', u ''restartExtension'']"

definition unknown_method :: "jsval \<Rightarrow> jsval" where
  "unknown_method method =
     Obj [(u ''error'', Str (u ''Unknown method: '' @ toStr method)),
          (u ''available'', Arr (map Str available)),
          (u ''hint'', Str (u ''Run \"vscode --help\" for examples''))]"

text \<open>The labels of the \<^verbatim>\<open>switch\<close>, in its order: the dispatch table.\<close>

definition methods :: "jsstring list" where
  "methods =
     [u ''restartExtension'', u ''eval'', u ''webview'', u ''registerConfig'', u ''unregisterConfig'',
      u ''listConfigs'', u ''subscribe'', u ''unsubscribe'', u ''listSubscribers'', u ''getOutput'',
      u ''status'']"

text \<open>
  The \<^verbatim>\<open>switch (method)\<close> compares with \<^verbatim>\<open>===\<close>, so only a string selects
  a case.
\<close>

definition dispatch :: "host \<Rightarrow> jsval \<Rightarrow> jsval \<Rightarrow> server \<Rightarrow> jsval outcome \<times> server" where
  "dispatch h method p s =
     (if method = Str (u ''restartExtension'') then restartExtension_handler s
      else if method = Str (u ''eval'') then eval_handler h p s
      else if method = Str (u ''webview'') then webview_handler h p s
      else if method = Str (u ''registerConfig'') then registerConfig_handler h p s
      else if method = Str (u ''unregisterConfig'') then unregisterConfig_handler h p s
      else if method = Str (u ''listConfigs'') then (config_list h, s)
      else if method = Str (u ''subscribe'') then subscribe_handler p s
      else if method = Str (u ''unsubscribe'') then unsubscribe_handler p s
      else if method = Str (u ''listSubscribers'') then listSubscribers_handler s
      else if method = Str (u ''getOutput'') then getOutput_handler h p s
      else if method = Str (u ''status'') then (status_snapshot h, s)
      else (Returned (unknown_method method), s))"

text \<open>
  \<^verbatim>\<open>executeCommand\<close>: destructuring \<^verbatim>\<open>null\<close> throws, the progress event is
  reported (to \<^verbatim>\<open>onProgress\<close>, when the caller gave one), then the \<^verbatim>\<open>switch\<close>. The function has no \<^verbatim>\<open>try\<close>: what a handler
  throws leaves it as \<open>Threw\<close> (the rejection of its promise).
\<close>

definition destructure :: "jsval \<Rightarrow> exn + jsval \<times> jsval" where
  "destructure request =
     (if request = Null \<or> request = Undefined
      then Inl (typeError (u ''Cannot destructure property '' @ [39] @ u ''method'' @ [39] @ u '' of '' @
                  [39] @ u ''request'' @ [39] @ u '' as it is '' @ toStr request @ u ''.''))
      else Inr (case get_prop request (u ''method'') of Inr v \<Rightarrow> v | Inl e \<Rightarrow> Undefined,
                case get_prop request (u ''params'') of Inr v \<Rightarrow> v | Inl e \<Rightarrow> Undefined))"

definition executeCommand :: "host \<Rightarrow> jsval \<Rightarrow> server \<Rightarrow> jsval outcome \<times> server" where
  "executeCommand h request s =
     (case destructure request of
        Inl e \<Rightarrow> (Threw (Plain e), s)
      | Inr mp \<Rightarrow> dispatch h (fst mp) (snd mp) (emit (Progress (Executing (fst mp))) s))"

section \<open>The connection handler\<close>

datatype sock_call = Write jsstring | End

text \<open>
  What happens on a connection: data arrives, the awaited promise of a waiting listener
  settles and the listener resumes, or the socket reports an error.
\<close>

datatype sock_event = Data jsstring | Resume nat | SockError exn

text \<open>
  A response object and the test \<^verbatim>\<open>result && typeof result === 'object' && 'error' in result\<close>.
\<close>

definition is_error_result :: "jsval \<Rightarrow> bool" where
  "is_error_result result = (truthy result \<and> typeof_object result \<and> has_prop (u ''error'') result)"

definition response_of :: "jsval \<Rightarrow> jsval" where
  "response_of result =
     (if is_error_result result
      then Obj [(u ''ok'', Bool False),
                (u ''error'', (case get_prop result (u ''error'') of Inr v \<Rightarrow> v | Inl e \<Rightarrow> Undefined))]
      else Obj [(u ''ok'', Bool True), (u ''result'', result)])"

definition error_response :: "exn \<Rightarrow> jsval" where
  "error_response e = Obj [(u ''ok'', Bool False), (u ''error'', Str (errorMessage e))]"

text \<open>
  The \<^verbatim>\<open>catch\<close> block of the data listener. \<open>catch_response\<close> is the text of its
  response, or what the block itself throws while it builds or serialises the response:
  \<^verbatim>\<open>String(error)\<close> of an object without a prototype and
  \<^verbatim>\<open>JSON.stringify\<close> of a BigInt message both throw a TypeError. The block then
  has logged and written nothing, and the promise of the listener rejects unhandled.
\<close>

definition catch_response :: "host \<Rightarrow> thrown \<Rightarrow> exn + jsstring" where
  "catch_response h t =
     (case t of
        Plain e \<Rightarrow> Inr (stringify h (error_response e))
      | BareObject \<Rightarrow> Inl (typeError (u ''Cannot convert object to primitive value''))
      | BigIntError name n \<Rightarrow> Inl (typeError (u ''Do not know how to serialize a BigInt'')))"

definition on_catch :: "host \<Rightarrow> thrown \<Rightarrow> server \<times> sock_call list \<Rightarrow> server \<times> sock_call list" where
  "on_catch h t c =
     (case catch_response h t of
        Inr text \<Rightarrow>
          (appendLine (left_arrow @ u '' ERROR: '' @ text) (fst c), snd c @ [Write text, End])
      | Inl e \<Rightarrow> (emit (Unhandled e) (fst c), snd c))"

text \<open>
  The data listener up to its \<^verbatim>\<open>await\<close> logs the request; what follows the
  \<^verbatim>\<open>await\<close> runs when the promise of \<^verbatim>\<open>executeCommand\<close> has settled, in the
  state of that moment: \<open>respond\<close>. A promise that never settles never resumes its
  listener.
\<close>

definition log_input :: "host \<Rightarrow> jsval \<Rightarrow> server \<Rightarrow> server" where
  "log_input h request s = appendLine (right_arrow @ u '' INPUT: '' @ stringify h request) s"

definition respond :: "host \<Rightarrow> jsval outcome \<Rightarrow> server \<times> sock_call list \<Rightarrow> server \<times> sock_call list" where
  "respond h out c =
     (case out of
        Pending \<Rightarrow> c
      | Threw t \<Rightarrow> on_catch h t c
      | Returned result \<Rightarrow>
          (let response = response_of result
           in (appendLine (left_arrow @ u '' OUTPUT: '' @ stringify h response) (fst c),
               snd c @ [Write (stringify h response), End])))"

text \<open>
  One data listener from its event to its end, with nothing else happening while it
  awaits. The socket is the list of the calls made on it.
\<close>

definition on_data :: "host \<Rightarrow> jsstring \<Rightarrow> server \<times> sock_call list \<Rightarrow> server \<times> sock_call list" where
  "on_data h d c =
     (case json_parse h d of
        Inl e \<Rightarrow> on_catch h (Plain e) c
      | Inr request \<Rightarrow>
          (let r = executeCommand h request (log_input h request (fst c))
           in respond h (fst r) (snd r, snd c)))"

definition on_socket_error :: "exn \<Rightarrow> server \<times> 'a \<Rightarrow> server \<times> 'a" where
  "on_socket_error e c = (appendLine (cross_mark @ u '' SOCKET ERROR: '' @ exnStr e) (fst c), snd c)"

text \<open>
  A connection: the calls made on its socket so far, and the outcomes that the listeners
  now waiting at their \<^verbatim>\<open>await\<close> will resume with, oldest first. The listeners of
  one connection interleave: a data event runs its listener up to the \<^verbatim>\<open>await\<close>
  (a text that does not parse is answered by the catch block at once), and
  \<open>Resume i\<close> resumes the \<open>i\<close>-th waiting listener, which then leaves the list. The
  effects of \<^verbatim>\<open>executeCommand\<close> on the server state are taken at the data event.
\<close>

record conn =
  socket_calls :: "sock_call list"
  awaiting :: "jsval outcome list"

fun on_event :: "host \<Rightarrow> server \<times> conn \<Rightarrow> sock_event \<Rightarrow> server \<times> conn" where
  "on_event h c (Data d) =
     (case json_parse h d of
        Inl e \<Rightarrow>
          (let a = on_catch h (Plain e) (fst c, socket_calls (snd c))
           in (fst a, (snd c)\<lparr>socket_calls := snd a\<rparr>))
      | Inr request \<Rightarrow>
          (let r = executeCommand h request (log_input h request (fst c))
           in (snd r, (snd c)\<lparr>awaiting := awaiting (snd c) @ [fst r]\<rparr>)))"
| "on_event h c (Resume i) =
     (if i < length (awaiting (snd c)) \<and> awaiting (snd c) ! i \<noteq> Pending
      then (let a = respond h (awaiting (snd c) ! i) (fst c, socket_calls (snd c))
            in (fst a, \<lparr>socket_calls = snd a,
                        awaiting = take i (awaiting (snd c)) @ drop (Suc i) (awaiting (snd c))\<rparr>))
      else c)"
| "on_event h c (SockError e) = on_socket_error e c"

text \<open>
  \<^verbatim>\<open>handleConnection\<close> registers the two listeners on a fresh socket; the events
  of the connection then run them.
\<close>

definition handleConnection :: "host \<Rightarrow> sock_event list \<Rightarrow> server \<Rightarrow> server \<times> conn" where
  "handleConnection h evs s = foldl (on_event h) (s, \<lparr>socket_calls = [], awaiting = []\<rparr>) evs"

section \<open>Broadcast\<close>

text \<open>
  The event handed to \<^verbatim>\<open>broadcast\<close>: its \<^verbatim>\<open>data\<close> is of any type, so it
  is a JSON value, or a value that \<^verbatim>\<open>JSON.stringify\<close> refuses with the given
  exception (it holds a BigInt or a cycle).
\<close>

datatype payload = Json jsval | NoJson exn

definition body_of :: "host \<Rightarrow> payload \<Rightarrow> exn + jsstring" where
  "body_of h ev = (case ev of Json v \<Rightarrow> Inr (stringify h v) | NoJson e \<Rightarrow> Inl e)"

text \<open>
  \<^verbatim>\<open>broadcast\<close> visits the subscribers in insertion order. For each it serialises
  the event, which can throw out of the loop to the caller, and issues the POST. The
  promise of the POST settles after \<^verbatim>\<open>broadcast\<close> has returned. \<open>post_all\<close> is
  the loop: what it throws to the caller, if anything, and the state it leaves.
\<close>

fun post_all :: "host \<Rightarrow> payload \<Rightarrow> server \<Rightarrow> jsval list \<Rightarrow> exn option \<times> server" where
  "post_all h ev s [] = (None, s)"
| "post_all h ev s (url # urls) =
     (case body_of h ev of
        Inl e \<Rightarrow> (Some e, s)
      | Inr body \<Rightarrow> post_all h ev (emit (Post url body) s) urls)"

definition broadcast :: "host \<Rightarrow> payload \<Rightarrow> server \<Rightarrow> exn option \<times> server" where
  "broadcast h ev s = post_all h ev s (subscribers s)"

text \<open>
  The \<^verbatim>\<open>catch\<close> attached to the POST to \<open>url\<close>, run when that promise rejects
  with \<open>err\<close>, in the state of that moment; and the handlers of several rejections, in
  the order in which the POSTs reject.
\<close>

definition on_post_rejected :: "jsval \<Rightarrow> exn \<Rightarrow> server \<Rightarrow> server" where
  "on_post_rejected url err s =
     appendLine (cross_mark @ u '' Broadcast failed to '' @ toStr url @ u '': '' @ exnStr err) s"

definition on_posts_rejected :: "(jsval \<times> exn) list \<Rightarrow> server \<Rightarrow> server" where
  "on_posts_rejected rs s = foldl (\<lambda>s r. on_post_rejected (fst r) (snd r) s) s rs"

section \<open>Server lifecycle\<close>

record bridge_instance =
  startTime :: nat

definition port :: int where
  "port = 9485"

text \<open>
  The synchronous body of \<^verbatim>\<open>startBridgeServer\<close> at time \<open>now\<close>: fresh closure
  state, the two start lines, and the instance it returns. \<^verbatim>\<open>server.listen\<close>
  reports later, through the \<^verbatim>\<open>listening\<close> callback or the \<^verbatim>\<open>error\<close> listener.
\<close>

definition startBridgeServer :: "nat \<Rightarrow> bridge_instance \<times> server" where
  "startBridgeServer now =
     (\<lparr>startTime = now\<rparr>,
      appendLines [u ''=== CLI Bridge Started ==='', u ''Listening on port '' @ int_str port] fresh)"

text \<open>A server event: listening, or an error with its \<^verbatim>\<open>code\<close> property.\<close>

datatype server_event = Listening | ServerError "jsstring option" exn

fun on_server_event :: "server_event \<Rightarrow> server \<Rightarrow> server" where
  "on_server_event Listening s =
     emit (Progress (Ready (nat port))) (appendLine (u ''Server is ready'') s)"
| "on_server_event (ServerError code e) s =
     (if code = Some (u ''EADDRINUSE'')
      then appendLine (u ''Run: lsof -ti :9485 | xargs kill -9'')
             (appendLine (cross_mark @ u '' Port '' @ int_str port @ u '' already in use'') s)
      else appendLine (cross_mark @ u '' Server error: '' @ exnStr e) s)"

text \<open>\<^verbatim>\<open>dispose\<close>, by what \<^verbatim>\<open>server.close\<close> hands its callback.\<close>

definition dispose :: "exn option \<Rightarrow> server \<Rightarrow> server" where
  "dispose err s =
     (case err of
        Some e \<Rightarrow> appendLine (cross_mark @ u '' Error closing server: '' @ exnStr e) s
      | None \<Rightarrow> appendLine (check_mark @ u '' Server closed'') s)"

text \<open>
  The start command of \<^verbatim>\<open>src/commands/bridge.start.ts\<close> over the two globals.
  Its \<^verbatim>\<open>catch\<close> block would run if \<^verbatim>\<open>startBridgeServer\<close> threw.
\<close>

datatype ui = Info jsstring | ErrorMessage jsstring | LogState jsstring

record app =
  bridgeInstance :: "bridge_instance option"
  bridgeConfig :: bool
  srv :: server
  shown :: "ui list"

definition bridge_start :: "nat \<Rightarrow> app \<Rightarrow> app" where
  "bridge_start now a =
     (if bridgeInstance a \<noteq> None
      then a\<lparr>shown := shown a @ [Info (u ''Bridge already running''), LogState (u ''bridge_already_running'')]\<rparr>
      else if \<not> bridgeConfig a
      then a\<lparr>shown := shown a @ [ErrorMessage (u ''Bridge config not initialized''),
                                   LogState (u ''bridge_config_missing'')]\<rparr>
      else
        (let started = startBridgeServer now
         in a\<lparr>bridgeInstance := Some (fst started), srv := snd started,
               shown := shown a @ [Info (u ''ClarityOS Bridge started on port 9485''),
                                   LogState (u ''bridge_started'')]\<rparr>))"

section \<open>Requests and hosts for the examples\<close>

text \<open>The request \<^verbatim>\<open>{"method": m, "params": {...}}\<close> as \<^verbatim>\<open>JSON.parse\<close> returns it.\<close>

definition req :: "jsstring \<Rightarrow> (jsstring \<times> jsval) list \<Rightarrow> jsval" where
  "req m ps = Obj [(u ''method'', Str m), (u ''params'', Obj ps)]"

text \<open>
  A host in which nothing happens: every script returns \<^verbatim>\<open>undefined\<close>, there is
  no webview manager and no text parses. The examples change the
  fields they are about.
\<close>

definition quiet_host :: host where
  "quiet_host =
     \<lparr>script = (\<lambda>code. ([], Returned Undefined)),
      webviewManager = None,
      config_register = (\<lambda>name filePath. Returned Undefined),
      config_unregister = (\<lambda>name. Returned Undefined),
      config_list = Returned (Arr []),
      status_snapshot = Returned (Obj []),
      stringify = toStr,
      stringify2 = toStr,
      json_parse = (\<lambda>d. Inl (Error (u ''SyntaxError'') (u ''Unexpected end of JSON input''))),
      string_to_number = (\<lambda>s. None)\<rparr>"

text \<open>\<open>with_request text request h\<close>: the host \<open>h\<close>, parsing \<open>text\<close> to \<open>request\<close>.\<close>

definition with_request :: "jsstring \<Rightarrow> jsval \<Rightarrow> host \<Rightarrow> host" where
  "with_request text request h =
     h\<lparr>json_parse := (\<lambda>d. if d = text then Inr request else json_parse h d)\<rparr>"

text \<open>A host whose script engine returns the source text it was given.\<close>

definition echo_host :: host where
  "echo_host = quiet_host\<lparr>script := (\<lambda>code. ([], Returned (Str code)))\<rparr>"

text \<open>
  A host that parses one request text, \<^verbatim>\<open>{"method":"eval","params":{"code":"40+2"}}\<close>,
  and whose script engine evaluates one program, \<^verbatim>\<open>return (40+2)\<close>, to 42.
\<close>

definition calc_text :: jsstring where
  "calc_text = u ''{\"method\":\"eval\",\"params\":{\"code\":\"40+2\"}}''"

definition calc_host :: host where
  "calc_host =
     with_request calc_text (req (u ''eval'') [(u ''code'', Str (u ''40+2''))])
       (quiet_host\<lparr>script := (\<lambda>code. if code = u ''return (40+2)'' then ([], Returned (Num 42))
                        else ([], Threw (Plain (Error (u ''SyntaxError'') (u ''Unexpected token'')))))\<rparr>)"

text \<open>
  The keyword \<^verbatim>\<open>return\<close> occurs in the code: the word, with no word character
  next to it on either side.
\<close>

definition contains_return_keyword :: "jsstring \<Rightarrow> bool" where
  "contains_return_keyword code =
     (\<exists>pre post. code = pre @ u ''return'' @ post \<and>
        (pre = [] \<or> \<not> is_word (last pre)) \<and> (post = [] \<or> \<not> is_word (hd post)))"

text \<open>Three eval requests: one whose code throws, one whose promise never settles, and
  one that evaluates to an object with an \<^verbatim>\<open>error\<close> field.\<close>

definition boom_text :: jsstring where
  "boom_text = u ''{\"method\":\"eval\",\"params\":{\"code\":\"f()\"}}''"

definition boom_host :: host where
  "boom_host =
     with_request boom_text (req (u ''eval'') [(u ''code'', Str (u ''f()''))])
       (quiet_host\<lparr>script := (\<lambda>code. ([], Threw (Plain (Error (u ''ReferenceError'') (u ''f is not defined'')))))\<rparr>)"

definition hang_text :: jsstring where
  "hang_text = u ''{\"method\":\"eval\",\"params\":{\"code\":\"await new Promise(() => {})\"}}''"

definition hang_host :: host where
  "hang_host =
     with_request hang_text (req (u ''eval'') [(u ''code'', Str (u ''await new Promise(() => {})''))])
       (quiet_host\<lparr>script := (\<lambda>code. ([], Pending))\<rparr>)"

definition soft_text :: jsstring where
  "soft_text = u ''{\"method\":\"eval\",\"params\":{\"code\":\"({error: 7, data: 8})\"}}''"

definition soft_host :: host where
  "soft_host =
     with_request soft_text (req (u ''eval'') [(u ''code'', Str (u ''({error: 7, data: 8})''))])
       (quiet_host\<lparr>script := (\<lambda>code. ([], Returned (Obj [(u ''error'', Num 7), (u ''data'', Num 8)])))\<rparr>)"

text \<open>A request for a method the switch does not have.\<close>

definition foo_text :: jsstring where
  "foo_text = u ''{\"method\":\"foo\",\"params\":{}}''"

definition foo_host :: host where
  "foo_host = with_request foo_text (req (u ''foo'') []) quiet_host"

text \<open>An eval request whose code throws an object without a prototype.\<close>

definition bare_text :: jsstring where
  "bare_text = u ''{\"method\":\"eval\",\"params\":{\"code\":\"throw Object.create(null)\"}}''"

definition bare_host :: host where
  "bare_host =
     with_request bare_text (req (u ''eval'') [(u ''code'', Str (u ''throw Object.create(null)''))])
       (quiet_host\<lparr>script := (\<lambda>code. ([], Threw BareObject))\<rparr>)"

text \<open>
  A host with a webview manager whose \<^verbatim>\<open>openView\<close> returns, and a subscribe
  request whose URL is the empty string.
\<close>

definition view_host :: host where
  "view_host = quiet_host\<lparr>webviewManager := Some (\<lambda>viewName title customPath. None)\<rparr>"

definition nourl_text :: jsstring where
  "nourl_text = u ''{\"method\":\"subscribe\",\"params\":{\"url\":\"\"}}''"

definition nourl_host :: host where
  "nourl_host = with_request nourl_text (req (u ''subscribe'') [(u ''url'', Str [])]) quiet_host"

text \<open>The value of the property \<open>k\<close> of the object with the fields \<open>ps\<close>.\<close>

definition prop_of :: "(jsstring \<times> jsval) list \<Rightarrow> jsstring \<Rightarrow> jsval" where
  "prop_of ps k = (case map_of ps k of None \<Rightarrow> Undefined | Some v \<Rightarrow> v)"

text \<open>
  The catch block can report the thrown value; and the data \<open>d\<close> is answered in state
  \<open>s\<close>: it does not parse, or \<^verbatim>\<open>executeCommand\<close> returns, or it throws what
  the catch block can report.
\<close>

fun reportable :: "thrown \<Rightarrow> bool" where
  "reportable (Plain e) = True"
| "reportable BareObject = False"
| "reportable (BigIntError name n) = False"

definition answered :: "host \<Rightarrow> jsstring \<Rightarrow> server \<Rightarrow> bool" where
  "answered h d s =
     (case json_parse h d of
        Inl e \<Rightarrow> True
      | Inr request \<Rightarrow>
          (case fst (executeCommand h request (log_input h request s)) of
             Returned result \<Rightarrow> True
           | Threw t \<Rightarrow> reportable t
           | Pending \<Rightarrow> False))"

fun is_data :: "sock_event \<Rightarrow> bool" where
  "is_data (Data d) = True"
| "is_data (Resume i) = False"
| "is_data (SockError e) = False"

fun is_socket_error :: "sock_event \<Rightarrow> bool" where
  "is_socket_error (SockError e) = True"
| "is_socket_error (Data d) = False"
| "is_socket_error (Resume i) = False"

fun is_write :: "sock_call \<Rightarrow> bool" where
  "is_write (Write r) = True"
| "is_write End = False"

fun is_unhandled :: "effect \<Rightarrow> bool" where
  "is_unhandled (Unhandled e) = True"
| "is_unhandled eff = False"

text \<open>The calls on a socket are writes of one response, each followed by \<^verbatim>\<open>end\<close>.\<close>

fun paired :: "sock_call list \<Rightarrow> bool" where
  "paired [] = True"
| "paired (Write r # End # cs) = paired cs"
| "paired cs = False"

text \<open>
  The responses written on a socket, the rejections of a listener that nothing handles,
  and the count that the events of a connection keep in step with its data events:
  responses written, listeners still waiting, and listeners that ended unhandled.
\<close>

definition responses :: "sock_call list \<Rightarrow> nat" where
  "responses cs = length (filter is_write cs)"

definition unhandled :: "server \<Rightarrow> nat" where
  "unhandled s = length (filter is_unhandled (effects s))"

definition balance :: "server \<times> conn \<Rightarrow> nat" where
  "balance c = responses (socket_calls (snd c)) + length (awaiting (snd c)) + unhandled (fst c)"

text \<open>
  What the stream sends of the calls made on a socket: a write after \<^verbatim>\<open>end\<close> is
  refused by the stream.
\<close>

fun sent :: "sock_call list \<Rightarrow> jsstring list" where
  "sent [] = []"
| "sent (Write r # cs) = r # sent cs"
| "sent (End # cs) = []"

text \<open>
  A sequence of subscribe and unsubscribe requests with string URLs, run through
  \<^verbatim>\<open>executeCommand\<close> one after the other, and what each does to a set.
\<close>

datatype sub_op = Subscribe jsstring | Unsubscribe jsstring

fun op_request :: "sub_op \<Rightarrow> jsval" where
  "op_request (Subscribe url) = req (u ''subscribe'') [(u ''url'', Str url)]"
| "op_request (Unsubscribe url) = req (u ''unsubscribe'') [(u ''url'', Str url)]"

fun op_url :: "sub_op \<Rightarrow> jsstring" where
  "op_url (Subscribe url) = url"
| "op_url (Unsubscribe url) = url"

definition run_ops :: "host \<Rightarrow> sub_op list \<Rightarrow> server \<Rightarrow> server" where
  "run_ops h ops s = foldl (\<lambda>s op. snd (executeCommand h (op_request op) s)) s ops"

fun set_op :: "jsval set \<Rightarrow> sub_op \<Rightarrow> jsval set" where
  "set_op S (Subscribe url) = insert (Str url) S"
| "set_op S (Unsubscribe url) = S - {Str url}"

text \<open>The line that the \<^verbatim>\<open>catch\<close> of a rejected POST appends.\<close>

definition failure_line :: "jsval \<Rightarrow> exn \<Rightarrow> jsstring" where
  "failure_line url err = cross_mark @ u '' Broadcast failed to '' @ toStr url @ u '': '' @ exnStr err"

text \<open>
  The lines that the handlers of several rejections append, in the order of the
  rejections; and an event, three subscribers and the rejection of a POST for the
  examples.
\<close>

definition failure_lines :: "(jsval \<times> exn) list \<Rightarrow> jsstring list" where
  "failure_lines rs = map (\<lambda>r. failure_line (fst r) (snd r)) rs"

definition terminal_changed :: jsval where
  "terminal_changed = Obj [(u ''event'', Str (u ''terminal-changed''))]"

definition audience :: server where
  "audience = fresh\<lparr>subscribers := [Str (u ''http://a''), Str (u ''http://b''), Str (u ''http://c'')]\<rparr>"

definition fetch_failed :: exn where
  "fetch_failed = Error (u ''TypeError'') (u ''fetch failed'')"

text \<open>Several effects at once.\<close>

definition emits :: "effect list \<Rightarrow> server \<Rightarrow> server" where
  "emits es s = s\<lparr>effects := effects s @ es\<rparr>"

text \<open>The extension before the start command runs, with its config in place.\<close>

definition idle_app :: app where
  "idle_app = \<lparr>bridgeInstance = None, bridgeConfig = True, srv = fresh, shown = []\<rparr>"

definition in_use :: exn where
  "in_use = Error (u ''Error'') (u ''listen EADDRINUSE: address already in use :::9485'')"

text \<open>The output history holds no more lines than its capacity.\<close>

definition within_capacity :: "server \<Rightarrow> bool" where
  "within_capacity s = (length (outputHistory s) \<le> 1000)"

text \<open>The last \<open>min n (length xs)\<close> entries of \<open>xs\<close>, in their order.\<close>

definition last_lines :: "nat \<Rightarrow> 'a list \<Rightarrow> 'a list" where
  "last_lines n xs = drop (length xs - min n (length xs)) xs"

section \<open>Integers that print as their digits\<close>

lemma bitlen_gt: "2 ^ k \<le> m \<Longrightarrow> k < bitlen m"
proof (induction k arbitrary: m)
  case 0
  then show ?case by (subst bitlen.simps) simp
next
  case (Suc k)
  then have "2 ^ k \<le> m div 2" by simp
  then have "k < bitlen (m div 2)" by (rule Suc.IH)
  moreover have "(0::nat) < 2 ^ Suc k" by simp
  then have "m \<noteq> 0" using Suc.prems by (metis less_le_trans less_numeral_extra(3))
  ultimately show ?case by (subst bitlen.simps) simp
qed

lemma bitlen_le: "0 < m \<Longrightarrow> 2 ^ (bitlen m - 1) \<le> m"
proof (induction m rule: bitlen.induct)
  case (1 n)
  show ?case
  proof (cases "n div 2 = 0")
    case True
    then have "bitlen (n div 2) = 0" by (subst bitlen.simps) simp
    then have "bitlen n = 1" using 1 by (subst bitlen.simps) simp
    then show ?thesis using 1 by simp
  next
    case False
    then have ih: "2 ^ (bitlen (n div 2) - 1) \<le> n div 2" using 1 by simp
    have pos: "0 < bitlen (n div 2)" using False by (subst bitlen.simps) simp
    have "bitlen n = Suc (bitlen (n div 2))" using 1 by (subst bitlen.simps) simp
    then have "2 ^ (bitlen n - 1) = 2 * 2 ^ (bitlen (n div 2) - 1)"
      using pos by (cases "bitlen (n div 2)") simp_all
    also have "\<dots> \<le> 2 * (n div 2)" using ih by simp
    also have "\<dots> \<le> n" by simp
    finally show ?thesis .
  qed
qed

lemma to_double_large:
  assumes "2 ^ 53 \<le> m"
  shows "2 ^ 53 \<le> to_double m"
proof -
  define e where "e = bitlen m - 53"
  define q where "q = m div 2 ^ e"
  have b: "53 < bitlen m" using assms by (rule bitlen_gt)
  then have e1: "1 \<le> e" and be: "bitlen m - 1 = e + 52" by (simp_all add: e_def)
  have "0 < m" using assms by (simp add: order.strict_trans2 [of 0 "2 ^ 53"])
  then have "2 ^ (e + 52) \<le> m" using bitlen_le [of m] be by simp
  then have "(2::nat) ^ 52 * 2 ^ e \<le> m" by (simp add: power_add mult.commute)
  then have q52: "2 ^ 52 \<le> q"
    unfolding q_def by (simp add: less_eq_div_iff_mult_less_eq)
  have "to_double m = (if 2 ^ (e - 1) < m mod 2 ^ e \<or> (m mod 2 ^ e = 2 ^ (e - 1) \<and> odd q) then q + 1 else q) * 2 ^ e"
    using assms by (simp add: to_double_def Let_def e_def q_def)
  then have "q * 2 ^ e \<le> to_double m" by simp
  moreover have "(2::nat) ^ 52 * 2 ^ 1 \<le> q * 2 ^ e"
    using q52 e1 by (intro mult_le_mono power_increasing) simp_all
  ultimately show ?thesis by simp
qed

lemma pick_safe:
  assumes "x < 2 ^ 53" and "0 < p" and "pick x p = Some v"
  shows "v = x"
proof -
  define lo where "lo = x div p"
  have nh: "to_double ((lo + 1) * p) \<noteq> x"
  proof (cases "(lo + 1) * p < 2 ^ 53")
    case True
    have "x < (lo + 1) * p"
      using assms(2) unfolding lo_def by (simp add: dividend_less_times_div mult.commute)
    with True show ?thesis by (simp add: to_double_def)
  next
    case False
    then have "2 ^ 53 \<le> (lo + 1) * p" by (simp only: not_less)
    then have "2 ^ 53 \<le> to_double ((lo + 1) * p)" by (rule to_double_large)
    with assms(1) show ?thesis by (metis not_less)
  qed
  have "lo * p \<le> x" unfolding lo_def by simp
  then have "to_double (lo * p) = lo * p" using assms(1) by (simp add: to_double_def)
  then show ?thesis
    using assms(3) nh by (auto simp: pick_def Let_def lo_def [symmetric] split: if_splits)
qed

lemma shortest_from_safe: "x < 2 ^ 53 \<Longrightarrow> shortest_from x e = x"
proof (induction e)
  case 0
  then show ?case by simp
next
  case (Suc e)
  show ?case
  proof (cases "pick x (10 ^ Suc e)")
    case None
    with Suc show ?thesis by simp
  next
    case (Some v)
    then have "v = x" using Suc.prems by (intro pick_safe [of x "10 ^ Suc e" v]) simp_all
    with Some show ?thesis by simp
  qed
qed

lemma digits_length: "0 < k \<Longrightarrow> x < 10 ^ k \<Longrightarrow> length (digits x) \<le> k"
proof (induction k arbitrary: x)
  case 0
  then show ?case by simp
next
  case (Suc k)
  show ?case
  proof (cases "x < 10")
    case True
    then show ?thesis by (subst digits.simps) simp
  next
    case False
    then have k: "0 < k" using Suc.prems by (cases k) simp_all
    have "x div 10 < 10 ^ k" using Suc.prems by (simp add: less_mult_imp_div_less mult.commute)
    then have "length (digits (x div 10)) \<le> k" using k by (intro Suc.IH)
    with False show ?thesis by (subst digits.simps) simp
  qed
qed

lemma number_str_safe:
  assumes "x < 2 ^ 53"
  shows "number_str x = digits x"
proof -
  have "x < 10 ^ 21" using assms by (rule less_trans) simp
  then have "length (digits x) \<le> 21" by (intro digits_length) simp_all
  then show ?thesis using assms by (simp add: number_str_def shortest_def shortest_from_safe Let_def)
qed

lemma int_str_safe: "0 \<le> i \<Longrightarrow> i < 2 ^ 53 \<Longrightarrow> int_str i = digits (nat i)"
  by (simp add: int_str_def number_str_safe nat_less_iff)

lemma toStr_1e21: "toStr (Num 1000000000000000000000) = u ''1e+21''"
proof -
  have b1: "bitlen 1000000000000000000000 = 70"
    by (simp add: bitlen.simps)
  have b2: "bitlen 2000000000000000000000 = 71"
    by (simp add: bitlen.simps)
  have t1: "to_double 1000000000000000000000 = 1000000000000000000000"
    by (simp add: to_double_def b1 Let_def)
  have t2: "to_double 2000000000000000000000 = 2000000000000000000000"
    by (simp add: to_double_def b2 Let_def)
  have d: "digits 1000000000000000000000 = u ''1000000000000000000000''"
    by (simp add: digits.simps u_def)
  have p: "pick 1000000000000000000000 (10 ^ Suc 20) = Some 1000000000000000000000"
    by (simp add: pick_def Let_def t1 t2)
  have l: "length (digits 1000000000000000000000) - 1 = Suc 20"
    by (simp add: d u_def)
  have s: "shortest 1000000000000000000000 = 1000000000000000000000"
    unfolding shortest_def l by (simp only: shortest_from.simps p option.case)
  have "number_str 1000000000000000000000 = u ''1e+21''"
    by (simp add: number_str_def s d Let_def strip_zeros_def) (simp add: u_def digits.simps)
  then show ?thesis by (simp add: int_str_def)
qed

section \<open>The output history is bounded\<close>

lemma push_shift_length:
  "length (push_shift h v) = (if length h < 1000 then Suc (length h) else length h)"
  by (simp add: push_shift_def Let_def)

lemma push_shift_bounded: "length h \<le> 1000 \<Longrightarrow> length (push_shift h v) \<le> 1000"
  by (simp add: push_shift_length)

lemma appendLine_history [simp]:
  "outputHistory (appendLine v s) = push_shift (outputHistory s) v"
  by (simp add: appendLine_def)

lemma appendLine_subscribers [simp]: "subscribers (appendLine v s) = subscribers s"
  by (simp add: appendLine_def)

lemma appendLine_effects [simp]: "effects (appendLine v s) = effects s"
  by (simp add: appendLine_def)

lemma appendLine_channel [simp]: "channel (appendLine v s) = channel s @ [v]"
  by (simp add: appendLine_def)

lemma appendLines_Nil [simp]: "appendLines [] s = s"
  by (simp add: appendLines_def)

lemma appendLines_Cons [simp]: "appendLines (v # vs) s = appendLines vs (appendLine v s)"
  by (simp add: appendLines_def)

lemma appendLines_snoc: "appendLines (vs @ [v]) s = appendLine v (appendLines vs s)"
  by (simp add: appendLines_def)

lemma appendLines_append: "appendLines (vs @ ws) s = appendLines ws (appendLines vs s)"
  by (simp add: appendLines_def)

lemma appendLines_bounded:
  "length (outputHistory s) \<le> 1000 \<Longrightarrow> length (outputHistory (appendLines vs s)) \<le> 1000"
  by (induction vs arbitrary: s) (simp_all add: push_shift_bounded)

text \<open>
  What the history holds after any appends: the last 1000 of everything pushed so far.
\<close>

lemma push_shift_drop:
  "length h \<le> 1000 \<Longrightarrow> push_shift h v = drop (Suc (length h) - 1000) (h @ [v])"
proof (cases "length h < 1000")
  case True
  then show ?thesis by (simp add: push_shift_def Let_def)
next
  case False
  assume "length h \<le> 1000"
  with False have len: "length h = 1000" by simp
  then have "Suc (length h) - 1000 = Suc 0" by simp
  then have "drop (Suc (length h) - 1000) (h @ [v]) = tl (h @ [v])"
    by (simp only: drop_Suc drop_0)
  then show ?thesis using len by (simp add: push_shift_def Let_def)
qed

lemma appendLines_history:
  "length (outputHistory s) \<le> 1000 \<Longrightarrow>
   outputHistory (appendLines vs s) =
     drop (length (outputHistory s @ vs) - 1000) (outputHistory s @ vs)"
proof (induction vs rule: rev_induct)
  case Nil
  then show ?case by simp
next
  case (snoc v vs)
  define all where "all = outputHistory s @ vs"
  define m where "m = length all - 1000"
  have b: "length (drop m all) \<le> 1000"
    by (simp add: m_def)
  have ih: "outputHistory (appendLines vs s) = drop m all"
    using snoc by (simp add: all_def m_def)
  have "outputHistory (appendLines (vs @ [v]) s) = push_shift (drop m all) v"
    by (simp add: appendLines_snoc ih)
  also have "\<dots> = drop (Suc (length (drop m all)) - 1000) (drop m all @ [v])"
    using b by (rule push_shift_drop)
  also have "drop m all @ [v] = drop m (all @ [v])"
    by (simp add: m_def)
  also have "drop (Suc (length (drop m all)) - 1000) (drop m (all @ [v])) =
             drop (Suc (length (drop m all)) - 1000 + m) (all @ [v])"
    by (rule drop_drop)
  also have "Suc (length (drop m all)) - 1000 + m = length (all @ [v]) - 1000"
    by (simp add: m_def)
  finally show ?case by (simp add: all_def)
qed

section \<open>Dispatch of a well-formed request\<close>

lemma destructure_req [simp]: "destructure (req m ps) = Inr (Str m, Obj ps)"
  by (simp add: destructure_def req_def u_def)

lemma executeCommand_req:
  "executeCommand h (req m ps) s =
     dispatch h (Str m) (Obj ps) (emit (Progress (Executing (Str m))) s)"
  by (simp add: executeCommand_def)

lemma dispatch_subscribe: "dispatch h (Str (u ''subscribe'')) p s = subscribe_handler p s"
  by (simp add: dispatch_def u_def)

lemma dispatch_unsubscribe: "dispatch h (Str (u ''unsubscribe'')) p s = unsubscribe_handler p s"
  by (simp add: dispatch_def u_def)

lemma dispatch_webview: "dispatch h (Str (u ''webview'')) p s = webview_handler h p s"
  by (simp add: dispatch_def u_def)

lemma dispatch_registerConfig:
  "dispatch h (Str (u ''registerConfig'')) p s = registerConfig_handler h p s"
  by (simp add: dispatch_def u_def)

lemma dispatch_unregisterConfig:
  "dispatch h (Str (u ''unregisterConfig'')) p s = unregisterConfig_handler h p s"
  by (simp add: dispatch_def u_def)

lemma emit_history [simp]: "outputHistory (emit e s) = outputHistory s"
  by (simp add: emit_def)

lemma emit_subscribers [simp]: "subscribers (emit e s) = subscribers s"
  by (simp add: emit_def)

lemma emit_channel [simp]: "channel (emit e s) = channel s"
  by (simp add: emit_def)

lemma emit_effects [simp]: "effects (emit e s) = effects s @ [e]"
  by (simp add: emit_def)

section \<open>getOutput\<close>

lemma dispatch_getOutput:
  "dispatch h (Str (u ''getOutput'')) p s = getOutput_handler h p s"
  by (simp add: dispatch_def u_def)

lemma last_lines_length: "length (last_lines n xs) = min n (length xs)"
  by (simp add: last_lines_def)

lemma last_lines_suffix: "\<exists>pre. xs = pre @ last_lines n xs"
  by (metis append_take_drop_id last_lines_def)

lemma slice_from_neg:
  "1 \<le> n \<Longrightarrow> slice_from xs (Some (- n)) = last_lines (nat n) xs"
  by (auto simp: slice_from_def last_lines_def Let_def max_def min_def
      intro!: arg_cong2 [where f = drop])

lemma getOutput_lines:
  assumes "map_of ps (u ''lines'') = Some (Num n)" and "1 \<le> n"
  shows "getOutput_handler h (Obj ps) s =
     (Returned (Obj [(u ''output'', Arr (map Str (last_lines (nat n) (outputHistory s)))),
                     (u ''total'', Num (int (length (outputHistory s))))]), s)"
  using assms by (simp add: getOutput_handler_def Let_def slice_from_neg)

lemma getOutput_default:
  assumes "map_of ps (u ''lines'') = None"
  shows "getOutput_handler h (Obj ps) s =
     (Returned (Obj [(u ''output'', Arr (map Str (last_lines 100 (outputHistory s)))),
                     (u ''total'', Num (int (length (outputHistory s))))]), s)"
  using assms slice_from_neg [of 100 "outputHistory s"]
  by (simp add: getOutput_handler_def Let_def)

lemma appendLines_many:
  assumes "length (outputHistory s) \<le> 1000" and "1000 < length vs"
  shows "outputHistory (appendLines vs s) = drop (length vs - 1000) vs"
proof -
  have "outputHistory (appendLines vs s) =
        drop (length (outputHistory s @ vs) - 1000) (outputHistory s @ vs)"
    using assms(1) by (rule appendLines_history)
  also have "\<dots> = drop (length (outputHistory s) + length vs - 1000 - length (outputHistory s)) vs"
    using assms(2) by simp
  also have "length (outputHistory s) + length vs - 1000 - length (outputHistory s) = length vs - 1000"
    using assms(2) by simp
  finally show ?thesis .
qed




section \<open>eval: the implicit return\<close>

lemma length_return [simp]: "length (u ''return'') = 6"
  by (simp add: u_def)

lemma take6_iff: "take 6 s = u ''return'' \<longleftrightarrow> (\<exists>post. s = u ''return'' @ post)"
proof
  assume "take 6 s = u ''return''"
  then have "s = u ''return'' @ drop 6 s" by (metis append_take_drop_id)
  then show "\<exists>post. s = u ''return'' @ post" ..
next
  assume "\<exists>post. s = u ''return'' @ post"
  then show "take 6 s = u ''return''" by auto
qed

lemma return_at_iff:
  "return_at prev s \<longleftrightarrow>
     (\<not> prev \<and> (\<exists>post. s = u ''return'' @ post \<and> (post = [] \<or> \<not> is_word (hd post))))"
proof
  assume a: "return_at prev s"
  then have t: "take 6 s = u ''return''" and np: "\<not> prev" by (simp_all add: return_at_def)
  then have s: "s = u ''return'' @ drop 6 s" by (metis append_take_drop_id)
  have "drop 6 s = [] \<or> \<not> is_word (hd (drop 6 s))"
    using a by (cases "drop 6 s") (simp_all add: return_at_def)
  with s np show "\<not> prev \<and> (\<exists>post. s = u ''return'' @ post \<and> (post = [] \<or> \<not> is_word (hd post)))"
    by blast
next
  assume "\<not> prev \<and> (\<exists>post. s = u ''return'' @ post \<and> (post = [] \<or> \<not> is_word (hd post)))"
  then obtain post where np: "\<not> prev" and s: "s = u ''return'' @ post"
    and p: "post = [] \<or> \<not> is_word (hd post)" by blast
  show "return_at prev s"
    using np p by (cases post) (simp_all add: return_at_def s)
qed

lemma return_from_iff:
  "return_from prev s \<longleftrightarrow>
     (\<exists>pre post. s = pre @ u ''return'' @ post \<and>
        (if pre = [] then \<not> prev else \<not> is_word (last pre)) \<and>
        (post = [] \<or> \<not> is_word (hd post)))"
proof (induction s arbitrary: prev)
  case Nil
  then show ?case by (simp add: u_def)
next
  case (Cons c cs)
  show ?case
  proof
    assume "return_from prev (c # cs)"
    then consider "return_at prev (c # cs)" | "return_from (is_word c) cs" by auto
    then show "\<exists>pre post. c # cs = pre @ u ''return'' @ post \<and>
        (if pre = [] then \<not> prev else \<not> is_word (last pre)) \<and>
        (post = [] \<or> \<not> is_word (hd post))"
    proof cases
      case 1
      then obtain post where "\<not> prev" "c # cs = u ''return'' @ post" "post = [] \<or> \<not> is_word (hd post)"
        by (auto simp: return_at_iff)
      then have "c # cs = [] @ u ''return'' @ post \<and>
        (if [] = ([]::jsstring) then \<not> prev else \<not> is_word (last [])) \<and>
        (post = [] \<or> \<not> is_word (hd post))" by simp
      then show ?thesis by blast
    next
      case 2
      then obtain pre post where cs: "cs = pre @ u ''return'' @ post"
        and l: "if pre = [] then \<not> is_word c else \<not> is_word (last pre)"
        and r: "post = [] \<or> \<not> is_word (hd post)"
        using Cons.IH by blast
      have "c # cs = (c # pre) @ u ''return'' @ post \<and>
        (if c # pre = [] then \<not> prev else \<not> is_word (last (c # pre))) \<and>
        (post = [] \<or> \<not> is_word (hd post))"
        using cs l r by auto
      then show ?thesis by blast
    qed
  next
    assume "\<exists>pre post. c # cs = pre @ u ''return'' @ post \<and>
        (if pre = [] then \<not> prev else \<not> is_word (last pre)) \<and>
        (post = [] \<or> \<not> is_word (hd post))"
    then obtain pre post where s: "c # cs = pre @ u ''return'' @ post"
        and l: "if pre = [] then \<not> prev else \<not> is_word (last pre)"
        and r: "post = [] \<or> \<not> is_word (hd post)" by blast
    show "return_from prev (c # cs)"
    proof (cases pre)
      case Nil
      then have "return_at prev (c # cs)"
        using s l r by (auto simp: return_at_iff)
      then show ?thesis by simp
    next
      case (Cons a pre')
      then have cs: "cs = pre' @ u ''return'' @ post" and a: "a = c" using s by auto
      have "if pre' = [] then \<not> is_word c else \<not> is_word (last pre')"
        using l Cons a by (auto split: if_splits)
      then have "return_from (is_word c) cs"
        using Cons.IH cs r by blast
      then show ?thesis by simp
    qed
  qed
qed

lemma hasExplicitReturn_iff: "hasExplicitReturn code = contains_return_keyword code"
proof -
  have "(if pre = [] then \<not> False else \<not> is_word (last pre)) = (pre = [] \<or> \<not> is_word (last pre))"
    for pre :: jsstring by simp
  then show ?thesis
    by (simp only: hasExplicitReturn_def contains_return_keyword_def return_from_iff)
qed

lemma dispatch_eval: "dispatch h (Str (u ''eval'')) p s = eval_handler h p s"
  by (simp add: dispatch_def u_def)

lemma code_trim_Str:
  "map_of ps (u ''code'') = Some (Str c) \<Longrightarrow> code_trim (Obj ps) = Inr (trim c)"
  by (simp add: code_trim_def)

lemma wrap_code_keyword:
  "wrap_code code =
     (if 10 \<notin> set code \<and> 59 \<notin> set code \<and> \<not> contains_return_keyword code
      then u ''return ('' @ code @ u '')'' else code)"
  by (auto simp: wrap_code_def isSingleExpression_def hasExplicitReturn_iff)

lemma trim_40_2 [simp]: "trim (u ''40+2'') = u ''40+2''"
  by (simp add: trim_def is_space_def u_def)

lemma wrap_40_2 [simp]: "wrap_code (u ''40+2'') = u ''return (40+2)''"
  by (simp add: wrap_code_def isSingleExpression_def hasExplicitReturn_def return_at_def
      is_word_def u_def)

lemma no_return_40_2: "\<not> contains_return_keyword (u ''40+2'')"
  unfolding hasExplicitReturn_iff [symmetric]
  by (simp add: hasExplicitReturn_def return_at_def is_word_def u_def)

lemma plain_40_2: "10 \<notin> set (u ''40+2'') \<and> 59 \<notin> set (u ''40+2'')"
  by (simp add: u_def)

lemma wrapped_40_2: "u ''return ('' @ u ''40+2'' @ u '')'' = u ''return (40+2)''"
  by (simp add: u_def)

text \<open>
  C1, as the code has it. For every eval request with a string \<^verbatim>\<open>code\<close>, the code is
  trimmed first; the trimmed code is executed as \<^verbatim>\<open>return (<code>)\<close> exactly when
  it contains neither a newline nor a semicolon nor the keyword \<^verbatim>\<open>return\<close>, and
  as it is otherwise. What the handler returns is what the script engine gives for that
  text, and the engine's console calls go to the output channel. The input
  \<^verbatim>\<open>40+2\<close> is executed as \<^verbatim>\<open>return (40+2)\<close>: where the engine evaluates that
  to 42, the handler returns 42 and the response written is
  \<^verbatim>\<open>{ok: true, result: 42}\<close>.
\<close>

theorem C1_eval_wrapping:
  "(map_of ps (u ''code'') = Some (Str c) \<longrightarrow>
      executeCommand h (req (u ''eval'') ps) s =
        (let code = trim c;
             src = (if 10 \<notin> set code \<and> 59 \<notin> set code \<and> \<not> contains_return_keyword code
                    then u ''return ('' @ code @ u '')'' else code)
         in (snd (script h src),
             appendLines (map (console_line h) (fst (script h src)))
               (emit (Progress (Executing (Str (u ''eval'')))) s)))) \<and>
   (script h (u ''return (40+2)'') = (calls, Returned (Num 42)) \<longrightarrow>
      fst (executeCommand h (req (u ''eval'') [(u ''code'', Str (u ''40+2''))]) s) = Returned (Num 42) \<and>
      (json_parse h d = Inr (req (u ''eval'') [(u ''code'', Str (u ''40+2''))]) \<longrightarrow>
         snd (on_data h d (s, [])) =
           [Write (stringify h (Obj [(u ''ok'', Bool True), (u ''result'', Num 42)])), End]))"
proof (intro conjI impI)
  assume "map_of ps (u ''code'') = Some (Str c)"
  then show "executeCommand h (req (u ''eval'') ps) s =
        (let code = trim c;
             src = (if 10 \<notin> set code \<and> 59 \<notin> set code \<and> \<not> contains_return_keyword code
                    then u ''return ('' @ code @ u '')'' else code)
         in (snd (script h src),
             appendLines (map (console_line h) (fst (script h src)))
               (emit (Progress (Executing (Str (u ''eval'')))) s)))"
    by (simp add: executeCommand_req dispatch_eval eval_handler_def code_trim_Str Let_def
        wrap_code_keyword)
next
  assume a: "script h (u ''return (40+2)'') = (calls, Returned (Num 42))"
  have c: "code_trim (Obj [(u ''code'', Str (u ''40+2''))]) = Inr (u ''40+2'')"
    by (simp add: code_trim_Str)
  show r: "fst (executeCommand h (req (u ''eval'') [(u ''code'', Str (u ''40+2''))]) s) = Returned (Num 42)"
    for s
    by (simp add: executeCommand_req dispatch_eval eval_handler_def c a Let_def)
  assume "json_parse h d = Inr (req (u ''eval'') [(u ''code'', Str (u ''40+2''))])"
  then show "snd (on_data h d (s, [])) =
           [Write (stringify h (Obj [(u ''ok'', Bool True), (u ''result'', Num 42)])), End]"
    by (simp add: on_data_def respond_def Let_def r response_of_def is_error_result_def)
qed

lemma with_request_parse [simp]: "json_parse (with_request text request h) text = Inr request"
  by (simp add: with_request_def)

lemma with_request_script [simp]: "script (with_request text request h) = script h"
  by (simp add: with_request_def)

lemma with_request_stringify [simp]: "stringify (with_request text request h) = stringify h"
  by (simp add: with_request_def)

lemma calc_script: "script calc_host (u ''return (40+2)'') = ([], Returned (Num 42))"
  by (simp add: calc_host_def)

lemma calc_parse:
  "json_parse calc_host calc_text = Inr (req (u ''eval'') [(u ''code'', Str (u ''40+2''))])"
  by (simp add: calc_host_def)

theorem C1_eval_wrapping_witness:
  "executeCommand calc_host (req (u ''eval'') [(u ''code'', Str (u ''40+2''))]) fresh =
     (Returned (Num 42), emit (Progress (Executing (Str (u ''eval'')))) fresh) \<and>
   snd (on_data calc_host calc_text (fresh, [])) =
     [Write (stringify calc_host (Obj [(u ''ok'', Bool True), (u ''result'', Num 42)])), End]"
proof -
  note t = C1_eval_wrapping [of "[(u ''code'', Str (u ''40+2''))]" "u ''40+2''" calc_host fresh "[]"
      calc_text]
  have "executeCommand calc_host (req (u ''eval'') [(u ''code'', Str (u ''40+2''))]) fresh =
     (Returned (Num 42), emit (Progress (Executing (Str (u ''eval'')))) fresh)"
    using t [THEN conjunct1]
    by (simp add: Let_def plain_40_2 no_return_40_2 wrapped_40_2 calc_script)
  moreover have "snd (on_data calc_host calc_text (fresh, [])) =
     [Write (stringify calc_host (Obj [(u ''ok'', Bool True), (u ''result'', Num 42)])), End]"
    using t [THEN conjunct2] calc_script calc_parse by blast
  ultimately show ?thesis ..
qed

text \<open>
  A code string that ends in a newline contains a newline, and is wrapped all the same:
  the engine is handed \<^verbatim>\<open>return (40+2)\<close>, not the string as it came.
\<close>

theorem C1_trailing_newline_counterexample:
  "10 \<in> set (u ''40+2'' @ [10]) \<and>
   fst (executeCommand echo_host (req (u ''eval'') [(u ''code'', Str (u ''40+2'' @ [10]))]) fresh) =
     Returned (Str (u ''return (40+2)''))"
proof -
  have "trim (u ''40+2'' @ [10]) = u ''40+2''"
    by (simp add: trim_def is_space_def u_def)
  then show ?thesis
    by (simp add: executeCommand_req dispatch_eval eval_handler_def code_trim_def echo_host_def
        quiet_host_def)
qed

section \<open>The responses of the connection handler\<close>

lemma on_catch_plain:
  "on_catch h (Plain e) c =
     (appendLine (left_arrow @ u '' ERROR: '' @ stringify h (error_response e)) (fst c),
      snd c @ [Write (stringify h (error_response e)), End])"
  by (simp add: on_catch_def catch_response_def)

lemma on_catch_unreportable:
  "\<not> reportable t \<Longrightarrow> snd (on_catch h t c) = snd c"
  by (cases t) (simp_all add: on_catch_def catch_response_def)

lemma on_data_malformed:
  "json_parse h d = Inl e \<Longrightarrow>
   snd (on_data h d (s, sock)) = sock @ [Write (stringify h (error_response e)), End]"
  by (simp add: on_data_def on_catch_plain)

lemma on_data_threw:
  "json_parse h d = Inr request \<Longrightarrow>
   fst (executeCommand h request (log_input h request s)) = Threw (Plain e) \<Longrightarrow>
   snd (on_data h d (s, sock)) = sock @ [Write (stringify h (error_response e)), End]"
  by (simp add: on_data_def respond_def on_catch_plain Let_def)

lemma on_data_unreportable:
  "json_parse h d = Inr request \<Longrightarrow>
   fst (executeCommand h request (log_input h request s)) = Threw t \<Longrightarrow>
   \<not> reportable t \<Longrightarrow>
   snd (on_data h d (s, sock)) = sock"
  by (simp add: on_data_def respond_def on_catch_unreportable Let_def)

lemma on_data_returned:
  "json_parse h d = Inr request \<Longrightarrow>
   fst (executeCommand h request (log_input h request s)) = Returned result \<Longrightarrow>
   snd (on_data h d (s, sock)) = sock @ [Write (stringify h (response_of result)), End]"
  by (simp add: on_data_def respond_def Let_def)

lemma on_data_pending:
  "json_parse h d = Inr request \<Longrightarrow>
   fst (executeCommand h request (log_input h request s)) = Pending \<Longrightarrow>
   snd (on_data h d (s, sock)) = sock"
  by (simp add: on_data_def respond_def Let_def)

lemma response_of_error:
  "map_of kvs (u ''error'') = Some v \<Longrightarrow>
   response_of (Obj kvs) = Obj [(u ''ok'', Bool False), (u ''error'', v)]"
  by (auto simp: response_of_def is_error_result_def dest: map_of_SomeD intro: rev_image_eqI)

lemma eval_outcome:
  "map_of ps (u ''code'') = Some (Str c) \<Longrightarrow>
   fst (executeCommand h (req (u ''eval'') ps) s) = snd (script h (wrap_code (trim c)))"
  by (simp add: executeCommand_req dispatch_eval eval_handler_def code_trim_Str Let_def)

lemma destructure_no_params:
  "destructure (Obj [(u ''method'', Str m)]) = Inr (Str m, Undefined)"
  by (simp add: destructure_def u_def)

lemma dispatch_unknown:
  "method \<notin> Str ` set methods \<Longrightarrow> dispatch h method p s = (Returned (unknown_method method), s)"
  by (auto simp: dispatch_def methods_def)

lemma response_unknown:
  "response_of (unknown_method m) =
     Obj [(u ''ok'', Bool False), (u ''error'', Str (u ''Unknown method: '' @ toStr m))]"
  by (simp add: unknown_method_def response_of_error)

lemma response_of_plain:
  "\<not> has_prop (u ''error'') result \<Longrightarrow>
   response_of result = Obj [(u ''ok'', Bool True), (u ''result'', result)]"
  by (simp add: response_of_def is_error_result_def)

lemma soft_parse:
  "json_parse soft_host soft_text = Inr (req (u ''eval'') [(u ''code'', Str (u ''({error: 7, data: 8})''))])"
  by (simp add: soft_host_def)

lemma soft_script:
  "script soft_host code = ([], Returned (Obj [(u ''error'', Num 7), (u ''data'', Num 8)]))"
  by (simp add: soft_host_def quiet_host_def)

text \<open>
  C10. The connection handler classifies the dispatcher's result by its shape alone.
  Whenever \<^verbatim>\<open>executeCommand\<close> returns an object with an \<^verbatim>\<open>error\<close> property of
  value \<open>v\<close>, the response written is \<^verbatim>\<open>{ok: false, error: v}\<close> and holds no other
  property of the result; a result without an \<^verbatim>\<open>error\<close> property is written as
  \<^verbatim>\<open>{ok: true, result}\<close>. So an eval whose code evaluates to an object with an
  \<^verbatim>\<open>error\<close> field is reported as a failure.
\<close>

theorem C10_error_shape:
  "(json_parse h d = Inr request \<and>
    fst (executeCommand h request (log_input h request s)) = Returned (Obj kvs) \<and>
    map_of kvs (u ''error'') = Some v \<longrightarrow>
      snd (on_data h d (s, sock)) =
        sock @ [Write (stringify h (Obj [(u ''ok'', Bool False), (u ''error'', v)])), End]) \<and>
   (json_parse h d = Inr request \<and>
    fst (executeCommand h request (log_input h request s)) = Returned result \<and>
    \<not> has_prop (u ''error'') result \<longrightarrow>
      snd (on_data h d (s, sock)) =
        sock @ [Write (stringify h (Obj [(u ''ok'', Bool True), (u ''result'', result)])), End]) \<and>
   (json_parse h d = Inr (req (u ''eval'') ps) \<and> map_of ps (u ''code'') = Some (Str c) \<and>
    snd (script h (wrap_code (trim c))) = Returned (Obj kvs) \<and>
    map_of kvs (u ''error'') = Some v \<longrightarrow>
      snd (on_data h d (s, sock)) =
        sock @ [Write (stringify h (Obj [(u ''ok'', Bool False), (u ''error'', v)])), End])"
  by (auto simp: on_data_returned response_of_error response_of_plain eval_outcome)

theorem C10_error_shape_witness:
  "snd (on_data soft_host soft_text (fresh, [])) =
     [Write (stringify soft_host (Obj [(u ''ok'', Bool False), (u ''error'', Num 7)])), End] \<and>
   snd (on_data calc_host calc_text (fresh, [])) =
     [Write (stringify calc_host (Obj [(u ''ok'', Bool True), (u ''result'', Num 42)])), End]"
proof -
  have e: "fst (executeCommand soft_host (req (u ''eval'') [(u ''code'', Str (u ''({error: 7, data: 8})''))])
            (log_input soft_host (req (u ''eval'') [(u ''code'', Str (u ''({error: 7, data: 8})''))]) fresh)) =
        Returned (Obj [(u ''error'', Num 7), (u ''data'', Num 8)])"
    by (simp add: eval_outcome soft_script)
  have m: "map_of [(u ''error'', Num 7), (u ''data'', Num 8)] (u ''error'') = Some (Num 7)"
    by simp
  have c: "map_of [(u ''code'', Str (u ''({error: 7, data: 8})''))] (u ''code'') =
      Some (Str (u ''({error: 7, data: 8})''))"
    by simp
  note t = C10_error_shape [of soft_host soft_text
      "req (u ''eval'') [(u ''code'', Str (u ''({error: 7, data: 8})''))]" fresh
      "[(u ''error'', Num 7), (u ''data'', Num 8)]" "Num 7" "[]" "Num 0"
      "[(u ''code'', Str (u ''({error: 7, data: 8})''))]" "u ''({error: 7, data: 8})''"]
  from t [THEN conjunct1] soft_parse e m
  have a: "snd (on_data soft_host soft_text (fresh, [])) =
     [] @ [Write (stringify soft_host (Obj [(u ''ok'', Bool False), (u ''error'', Num 7)])), End]"
    by blast
  from t [THEN conjunct2, THEN conjunct2] soft_parse c soft_script m
  have b: "snd (on_data soft_host soft_text (fresh, [])) =
     [] @ [Write (stringify soft_host (Obj [(u ''ok'', Bool False), (u ''error'', Num 7)])), End]"
    by simp
  have r: "fst (executeCommand calc_host (req (u ''eval'') [(u ''code'', Str (u ''40+2''))])
            (log_input calc_host (req (u ''eval'') [(u ''code'', Str (u ''40+2''))]) fresh)) =
        Returned (Num 42)"
    by (simp add: eval_outcome calc_script)
  have n: "\<not> has_prop (u ''error'') (Num 42)"
    by simp
  from C10_error_shape [of calc_host calc_text "req (u ''eval'') [(u ''code'', Str (u ''40+2''))]"
      fresh "[]" Undefined "[]" "Num 42" "[]" "[]", THEN conjunct2, THEN conjunct1] calc_parse r n
  have "snd (on_data calc_host calc_text (fresh, [])) =
     [] @ [Write (stringify calc_host (Obj [(u ''ok'', Bool True), (u ''result'', Num 42)])), End]"
    by blast
  with a b show ?thesis by simp
qed

lemma foo_parse: "json_parse foo_host foo_text = Inr (req (u ''foo'') [])"
  by (simp add: foo_host_def)

lemma foo_unknown: "Str (u ''foo'') \<notin> Str ` set methods"
  by (simp add: methods_def u_def)

lemma foo_message: "u ''Unknown method: '' @ toStr (Str (u ''foo'')) = u ''Unknown method: foo''"
  by (simp add: u_def)

text \<open>
  C3, evaluated at the request \<^verbatim>\<open>{"method":"foo","params":{}}\<close>. The dispatcher's
  result carries the \<^verbatim>\<open>available\<close> list, but the response written to the client is
  \<^verbatim>\<open>{ok: false, error: "Unknown method: foo"}\<close>, which names no known method; and
  the \<^verbatim>\<open>available\<close> list itself leaves out \<^verbatim>\<open>getOutput\<close>, a label of the switch.
\<close>

theorem C3_unknown_method_response:
  "fst (executeCommand foo_host (req (u ''foo'') []) (log_input foo_host (req (u ''foo'') []) fresh)) =
     Returned (Obj [(u ''error'', Str (u ''Unknown method: foo'')),
                    (u ''available'', Arr (map Str available)),
                    (u ''hint'', Str (u ''Run \"vscode --help\" for examples''))]) \<and>
   snd (on_data foo_host foo_text (fresh, [])) =
     [Write (stringify foo_host (Obj [(u ''ok'', Bool False),
                                      (u ''error'', Str (u ''Unknown method: foo''))])), End] \<and>
   u ''getOutput'' \<in> set methods \<and> u ''getOutput'' \<notin> set available"
proof -
  have ex: "fst (executeCommand h (req (u ''foo'') []) s) = Returned (unknown_method (Str (u ''foo'')))"
    for h s
    by (simp add: executeCommand_req dispatch_unknown [OF foo_unknown])
  have "snd (on_data foo_host foo_text (fresh, [])) =
     [] @ [Write (stringify foo_host (response_of (unknown_method (Str (u ''foo''))))), End]"
    using foo_parse ex by (rule on_data_returned)
  then have "snd (on_data foo_host foo_text (fresh, [])) =
     [Write (stringify foo_host (Obj [(u ''ok'', Bool False),
                                      (u ''error'', Str (u ''Unknown method: foo''))])), End]"
    by (simp only: response_unknown foo_message append_Nil)
  moreover have "u ''getOutput'' \<in> set methods \<and> u ''getOutput'' \<notin> set available"
    by (simp add: methods_def available_def u_def)
  moreover have "unknown_method (Str (u ''foo'')) =
     Obj [(u ''error'', Str (u ''Unknown method: foo'')),
          (u ''available'', Arr (map Str available)),
          (u ''hint'', Str (u ''Run \"vscode --help\" for examples''))]"
    by (simp only: unknown_method_def foo_message)
  ultimately show ?thesis by (simp only: ex simp_thms)
qed

section \<open>Failures become error responses\<close>

lemma get_prop_Obj: "get_prop (Obj ps) k = Inr (prop_of ps k)"
  by (simp add: prop_of_def)

lemma webview_no_manager:
  "webviewManager h = None \<Longrightarrow>
   executeCommand h (req (u ''webview'') ps) s =
     (Returned (Obj [(u ''error'', Str (u ''WebviewManager not initialized''))]),
      emit (Progress (Executing (Str (u ''webview'')))) s)"
  by (simp add: executeCommand_req dispatch_webview webview_handler_def error_result_def)

lemma webview_no_viewName:
  "webviewManager h \<noteq> None \<Longrightarrow> \<not> truthy (prop_of ps (u ''viewName'')) \<Longrightarrow>
   executeCommand h (req (u ''webview'') ps) s =
     (Returned (Obj [(u ''error'', Str (u ''viewName parameter required''))]),
      emit (Progress (Executing (Str (u ''webview'')))) s)"
  by (auto simp: executeCommand_req dispatch_webview webview_handler_def error_result_def
      get_prop_Obj simp del: get_prop.simps)

lemma registerConfig_missing:
  "\<not> truthy (prop_of ps (u ''name'')) \<or> \<not> truthy (prop_of ps (u ''filePath'')) \<Longrightarrow>
   executeCommand h (req (u ''registerConfig'') ps) s =
     (Returned (Obj [(u ''error'', Str (u ''name and filePath required''))]),
      emit (Progress (Executing (Str (u ''registerConfig'')))) s)"
  by (auto simp: executeCommand_req dispatch_registerConfig registerConfig_handler_def
      error_result_def get_prop_Obj Let_def simp del: get_prop.simps)

lemma unregisterConfig_missing:
  "\<not> truthy (prop_of ps (u ''name'')) \<Longrightarrow>
   executeCommand h (req (u ''unregisterConfig'') ps) s =
     (Returned (Obj [(u ''error'', Str (u ''name required''))]),
      emit (Progress (Executing (Str (u ''unregisterConfig'')))) s)"
  by (simp add: executeCommand_req dispatch_unregisterConfig unregisterConfig_handler_def
      error_result_def get_prop_Obj del: get_prop.simps)

lemma subscribe_missing:
  "\<not> truthy (prop_of ps (u ''url'')) \<Longrightarrow>
   executeCommand h (req (u ''subscribe'') ps) s =
     (Returned (Obj [(u ''error'', Str (u ''url parameter required''))]),
      emit (Progress (Executing (Str (u ''subscribe'')))) s)"
  by (simp add: executeCommand_req dispatch_subscribe subscribe_handler_def
      error_result_def get_prop_Obj del: get_prop.simps)

lemma unsubscribe_missing:
  "\<not> truthy (prop_of ps (u ''url'')) \<Longrightarrow>
   executeCommand h (req (u ''unsubscribe'') ps) s =
     (Returned (Obj [(u ''error'', Str (u ''url parameter required''))]),
      emit (Progress (Executing (Str (u ''unsubscribe'')))) s)"
  by (simp add: executeCommand_req dispatch_unsubscribe unsubscribe_handler_def
      error_result_def get_prop_Obj del: get_prop.simps)

lemma on_data_error_result:
  "json_parse h d = Inr request \<Longrightarrow>
   fst (executeCommand h request (log_input h request s)) = Returned (Obj [(u ''error'', Str msg)]) \<Longrightarrow>
   snd (on_data h d (s, sock)) =
     sock @ [Write (stringify h (Obj [(u ''ok'', Bool False), (u ''error'', Str msg)])), End]"
  by (simp add: on_data_returned response_of_error)



lemma boom_parse:
  "json_parse boom_host boom_text = Inr (req (u ''eval'') [(u ''code'', Str (u ''f()''))])"
  by (simp add: boom_host_def)

lemma boom_script:
  "script boom_host code = ([], Threw (Plain (Error (u ''ReferenceError'') (u ''f is not defined''))))"
  by (simp add: boom_host_def quiet_host_def)

lemma bare_parse:
  "json_parse bare_host bare_text =
     Inr (req (u ''eval'') [(u ''code'', Str (u ''throw Object.create(null)''))])"
  by (simp add: bare_host_def)

lemma bare_script: "script bare_host code = ([], Threw BareObject)"
  by (simp add: bare_host_def quiet_host_def)

lemma nourl_parse: "json_parse nourl_host nourl_text = Inr (req (u ''subscribe'') [(u ''url'', Str [])])"
  by (simp add: nourl_host_def)

lemma view_manager: "webviewManager view_host \<noteq> None"
  by (simp add: view_host_def)

lemma quiet_manager: "webviewManager quiet_host = None"
  by (simp add: quiet_host_def)

lemma falsy_empty: "\<not> truthy (prop_of [(u ''url'', Str [])] (u ''url''))"
  by (simp add: prop_of_def)

lemma falsy_absent: "\<not> truthy (prop_of [] k)"
  by (simp add: prop_of_def)

lemma falsy_filePath: "\<not> truthy (prop_of [(u ''name'', Str (u ''a''))] (u ''filePath''))"
  by (simp add: prop_of_def u_def)



section \<open>One response for each data event\<close>

lemma unhandled_appendLine [simp]: "unhandled (appendLine v s) = unhandled s"
  by (simp add: unhandled_def)

lemma unhandled_appendLines [simp]: "unhandled (appendLines vs s) = unhandled s"
  by (induction vs arbitrary: s) simp_all

lemma unhandled_emit: "unhandled (emit e s) = unhandled s + (if is_unhandled e then 1 else 0)"
  by (simp add: unhandled_def)

lemma unhandled_subscribers [simp]: "unhandled (s\<lparr>subscribers := S\<rparr>) = unhandled s"
  by (simp add: unhandled_def)

lemma uh_restart: "unhandled (snd (restartExtension_handler s)) = unhandled s"
  by (simp add: restartExtension_handler_def unhandled_emit)

lemma uh_eval: "unhandled (snd (eval_handler h p s)) = unhandled s"
  by (simp add: eval_handler_def Let_def split: sum.splits)

lemma uh_webview: "unhandled (snd (webview_handler h p s)) = unhandled s"
  by (simp add: webview_handler_def Let_def unhandled_emit split: sum.splits option.splits)

lemma uh_register: "unhandled (snd (registerConfig_handler h p s)) = unhandled s"
  by (simp add: registerConfig_handler_def Let_def split: sum.splits)

lemma uh_unregister: "unhandled (snd (unregisterConfig_handler h p s)) = unhandled s"
  by (simp add: unregisterConfig_handler_def split: sum.splits)

lemma uh_subscribe: "unhandled (snd (subscribe_handler p s)) = unhandled s"
  by (simp add: subscribe_handler_def Let_def split: sum.splits)

lemma uh_unsubscribe: "unhandled (snd (unsubscribe_handler p s)) = unhandled s"
  by (simp add: unsubscribe_handler_def Let_def split: sum.splits)

lemma uh_list: "unhandled (snd (listSubscribers_handler s)) = unhandled s"
  by (simp add: listSubscribers_handler_def)

lemma uh_getOutput: "unhandled (snd (getOutput_handler h p s)) = unhandled s"
  by (simp add: getOutput_handler_def Let_def split: sum.splits)

lemma uh_dispatch: "unhandled (snd (dispatch h m p s)) = unhandled s"
  by (simp add: dispatch_def uh_restart uh_eval uh_webview uh_register uh_unregister uh_subscribe
      uh_unsubscribe uh_list uh_getOutput)

lemma uh_executeCommand: "unhandled (snd (executeCommand h r s)) = unhandled s"
  by (simp add: executeCommand_def uh_dispatch unhandled_emit split: sum.splits)

lemma paired_snoc: "paired cs \<Longrightarrow> paired (cs @ [Write r, End])"
  by (induction cs rule: paired.induct) simp_all

lemma sent_paired: "paired cs \<Longrightarrow> length (sent cs) \<le> 1"
  by (induction cs rule: paired.induct) simp_all

lemma responses_snoc [simp]: "responses (cs @ [Write r, End]) = Suc (responses cs)"
  by (simp add: responses_def)

text \<open>The catch block and the resumed listener: one response, or one unhandled rejection.\<close>

lemma on_catch_paired: "paired (snd c) \<Longrightarrow> paired (snd (on_catch h t c))"
  by (simp add: on_catch_def paired_snoc split: sum.splits)

lemma on_catch_count:
  "responses (snd (on_catch h t c)) + unhandled (fst (on_catch h t c)) =
   Suc (responses (snd c) + unhandled (fst c))"
  by (simp add: on_catch_def unhandled_emit split: sum.splits)

lemma respond_paired: "paired (snd c) \<Longrightarrow> paired (snd (respond h out c))"
  by (cases out) (simp_all add: respond_def on_catch_paired paired_snoc Let_def)

lemma respond_count:
  "out \<noteq> Pending \<Longrightarrow>
   responses (snd (respond h out c)) + unhandled (fst (respond h out c)) =
   Suc (responses (snd c) + unhandled (fst c))"
  by (cases out) (simp_all add: respond_def on_catch_count Let_def)

lemma on_event_paired:
  "paired (socket_calls (snd c)) \<Longrightarrow> paired (socket_calls (snd (on_event h c e)))"
proof (cases e)
  case (Data d)
  assume p: "paired (socket_calls (snd c))"
  then have "paired (snd (on_catch h t (fst c, socket_calls (snd c))))" for t
    by (simp add: on_catch_paired)
  with p Data show ?thesis
    by (simp add: Let_def split: sum.splits)
next
  case (Resume i)
  assume p: "paired (socket_calls (snd c))"
  then have "paired (snd (respond h out (fst c, socket_calls (snd c))))" for out
    by (simp add: respond_paired)
  with p Resume show ?thesis
    by (simp add: Let_def)
next
  case (SockError x)
  assume "paired (socket_calls (snd c))"
  with SockError show ?thesis
    by (simp add: on_socket_error_def)
qed

lemma length_remove_nth: "i < length xs \<Longrightarrow> Suc (length (take i xs @ drop (Suc i) xs)) = length xs"
  by simp

lemma on_event_balance:
  "balance (on_event h c e) = balance c + (if is_data e then 1 else 0)"
proof (cases e)
  case (Data d)
  show ?thesis
  proof (cases "json_parse h d")
    case (Inl x)
    with Data on_catch_count [of h "Plain x" "(fst c, socket_calls (snd c))"]
    show ?thesis
      by (simp add: balance_def Let_def)
  next
    case (Inr request)
    with Data show ?thesis
      by (simp add: balance_def Let_def uh_executeCommand log_input_def)
  qed
next
  case (Resume i)
  show ?thesis
  proof (cases "i < length (awaiting (snd c)) \<and> awaiting (snd c) ! i \<noteq> Pending")
    case True
    with respond_count [of "awaiting (snd c) ! i" h "(fst c, socket_calls (snd c))"]
    have "responses (snd (respond h (awaiting (snd c) ! i) (fst c, socket_calls (snd c)))) +
        unhandled (fst (respond h (awaiting (snd c) ! i) (fst c, socket_calls (snd c)))) =
        Suc (responses (socket_calls (snd c)) + unhandled (fst c))"
      by simp
    moreover from True have "Suc (length (take i (awaiting (snd c)) @ drop (Suc i) (awaiting (snd c)))) =
        length (awaiting (snd c))"
      by (simp add: length_remove_nth del: length_append length_take length_drop)
    ultimately show ?thesis
      using Resume True by (simp add: balance_def Let_def del: length_append length_take length_drop)
  next
    case False
    then have "on_event h c (Resume i) = c"
      by (simp only: on_event.simps if_False)
    with Resume show ?thesis
      by simp
  qed
next
  case (SockError x)
  then show ?thesis
    by (simp add: balance_def on_socket_error_def)
qed

lemma foldl_paired:
  "paired (socket_calls (snd c)) \<Longrightarrow> paired (socket_calls (snd (foldl (on_event h) c evs)))"
  by (induction evs arbitrary: c) (simp_all add: on_event_paired)

lemma foldl_balance:
  "balance (foldl (on_event h) c evs) = balance c + length (filter is_data evs)"
  by (induction evs arbitrary: c) (simp_all add: on_event_balance)

lemma handleConnection_paired: "paired (socket_calls (snd (handleConnection h evs s)))"
  by (simp add: handleConnection_def foldl_paired)

lemma handleConnection_balance:
  "balance (handleConnection h evs s) = length (filter is_data evs) + unhandled s"
  by (simp add: handleConnection_def foldl_balance) (simp add: balance_def responses_def)


text \<open>One listener with nothing in between is \<open>on_data\<close>.\<close>

lemma alone_state:
  "fst (handleConnection h [Data d, Resume 0] s) = fst (on_data h d (s, []))"
proof (cases "json_parse h d")
  case (Inl x)
  then show ?thesis
    by (simp add: handleConnection_def on_data_def Let_def)
next
  case (Inr request)
  then show ?thesis
    by (cases "fst (executeCommand h request (log_input h request s))")
      (simp_all add: handleConnection_def on_data_def Let_def respond_def)
qed

lemma alone_calls:
  "socket_calls (snd (handleConnection h [Data d, Resume 0] s)) = snd (on_data h d (s, []))"
proof (cases "json_parse h d")
  case (Inl x)
  then show ?thesis
    by (simp add: handleConnection_def on_data_def Let_def)
next
  case (Inr request)
  then show ?thesis
    by (cases "fst (executeCommand h request (log_input h request s))")
      (simp_all add: handleConnection_def on_data_def Let_def respond_def)
qed

lemma respond_answer:
  "out \<noteq> Pending \<Longrightarrow> (\<forall>t. out = Threw t \<longrightarrow> reportable t) \<Longrightarrow>
   \<exists>r. snd (respond h out (s, sock)) = sock @ [Write r, End]"
proof (cases out)
  case (Returned result)
  then show ?thesis by (simp add: respond_def Let_def)
next
  case (Threw t)
  assume "\<forall>t. out = Threw t \<longrightarrow> reportable t"
  with Threw have "reportable t" by simp
  then obtain e where "t = Plain e" by (cases t) simp_all
  with Threw show ?thesis by (simp add: respond_def on_catch_plain)
next
  case Pending
  assume "out \<noteq> Pending"
  with Pending show ?thesis by simp
qed

lemma on_data_answered:
  assumes "answered h d s"
  shows "\<exists>r. snd (on_data h d (s, sock)) = sock @ [Write r, End]"
proof (cases "json_parse h d")
  case (Inl e)
  then show ?thesis by (simp add: on_data_malformed)
next
  case (Inr request)
  with assms have "fst (executeCommand h request (log_input h request s)) \<noteq> Pending"
    and "\<forall>t. fst (executeCommand h request (log_input h request s)) = Threw t \<longrightarrow> reportable t"
    by (auto simp: answered_def split: outcome.splits)
  then have "\<exists>r. snd (respond h (fst (executeCommand h request (log_input h request s)))
      (snd (executeCommand h request (log_input h request s)), sock)) = sock @ [Write r, End]"
    by (rule respond_answer)
  with Inr show ?thesis by (simp add: on_data_def Let_def)
qed

lemma on_data_unanswered:
  assumes "\<not> answered h d s"
  shows "snd (on_data h d (s, sock)) = sock"
proof (cases "json_parse h d")
  case (Inl e)
  with assms show ?thesis by (simp add: answered_def)
next
  case (Inr request)
  show ?thesis
  proof (cases "fst (executeCommand h request (log_input h request s))")
    case (Returned result)
    with Inr assms show ?thesis by (simp add: answered_def)
  next
    case (Threw t)
    with Inr assms have "\<not> reportable t" by (simp add: answered_def)
    with Inr Threw show ?thesis by (rule on_data_unreportable)
  next
    case Pending
    with Inr show ?thesis by (rule on_data_pending)
  qed
qed

text \<open>Events that leave the connection as it is.\<close>

lemma socket_errors_conn:
  "list_all is_socket_error es \<Longrightarrow> snd (foldl (on_event h) c es) = snd c"
proof (induction es arbitrary: c)
  case Nil
  show ?case by simp
next
  case (Cons e es)
  then obtain x where "e = SockError x" by (cases e) simp_all
  with Cons show ?case by (simp add: on_socket_error_def)
qed

lemma idle_conn:
  "list_all (\<lambda>e. \<not> is_data e) es \<Longrightarrow> awaiting (snd c) = [] \<Longrightarrow>
   snd (foldl (on_event h) c es) = snd c"
proof (induction es arbitrary: c)
  case Nil
  show ?case by simp
next
  case (Cons e es)
  from Cons.prems have "snd (on_event h c e) = snd c"
    by (cases e) (simp_all add: on_socket_error_def)
  with Cons show ?case by simp
qed

lemma one_data_event:
  assumes a: "\<forall>s'. answered h d s'"
    and p1: "list_all (\<lambda>e. \<not> is_data e) pre"
    and p2: "list_all is_socket_error mid"
    and p3: "list_all (\<lambda>e. \<not> is_data e) post"
  shows "\<exists>r. socket_calls (snd (handleConnection h (pre @ [Data d] @ mid @ [Resume 0] @ post) s)) =
           [Write r, End]"
proof -
  define c1 where "c1 = foldl (on_event h) (s, \<lparr>socket_calls = [], awaiting = []\<rparr>) pre"
  define c2 where "c2 = on_event h c1 (Data d)"
  define c3 where "c3 = foldl (on_event h) c2 mid"
  define c4 where "c4 = on_event h c3 (Resume 0)"
  have whole: "handleConnection h (pre @ [Data d] @ mid @ [Resume 0] @ post) s =
      foldl (on_event h) c4 post"
    by (simp add: handleConnection_def c1_def c2_def c3_def c4_def)
  have s1: "snd c1 = \<lparr>socket_calls = [], awaiting = []\<rparr>"
    unfolding c1_def using p1 by (simp add: idle_conn)
  have s3: "snd c3 = snd c2"
    unfolding c3_def using p2 by (rule socket_errors_conn)
  have "\<exists>r. snd c4 = \<lparr>socket_calls = [Write r, End], awaiting = []\<rparr>"
  proof (cases "json_parse h d")
    case (Inl x)
    then have "snd c2 = \<lparr>socket_calls = [Write (stringify h (error_response x)), End], awaiting = []\<rparr>"
      by (simp add: c2_def s1 on_catch_plain Let_def)
    with s3 have s: "snd c3 = \<lparr>socket_calls = [Write (stringify h (error_response x)), End], awaiting = []\<rparr>"
      by simp
    then have "c4 = c3"
      by (simp add: c4_def)
    with s show ?thesis by simp
  next
    case (Inr request)
    define out where "out = fst (executeCommand h request (log_input h request (fst c1)))"
    from a have "answered h d (fst c1)" by simp
    with Inr have o: "out \<noteq> Pending" "\<forall>t. out = Threw t \<longrightarrow> reportable t"
      by (auto simp: answered_def out_def split: outcome.splits)
    from Inr have "snd c2 = \<lparr>socket_calls = [], awaiting = [out]\<rparr>"
      by (simp add: c2_def s1 out_def Let_def)
    with s3 have s: "snd c3 = \<lparr>socket_calls = [], awaiting = [out]\<rparr>"
      by simp
    from o obtain r where r: "snd (respond h out (fst c3, [])) = [] @ [Write r, End]"
      using respond_answer by blast
    from s o(1) have "snd c4 = \<lparr>socket_calls = snd (respond h out (fst c3, [])), awaiting = []\<rparr>"
      by (simp add: c4_def Let_def)
    with r show ?thesis by simp
  qed
  then obtain r where r: "snd c4 = \<lparr>socket_calls = [Write r, End], awaiting = []\<rparr>"
    by blast
  then have "snd (foldl (on_event h) c4 post) = snd c4"
    using p3 by (simp add: idle_conn)
  with r whole show ?thesis by simp
qed


lemma hang_parse:
  "json_parse hang_host hang_text =
     Inr (req (u ''eval'') [(u ''code'', Str (u ''await new Promise(() => {})''))])"
  by (simp add: hang_host_def)

lemma hang_script: "script hang_host code = ([], Pending)"
  by (simp add: hang_host_def quiet_host_def)

lemma hang_outcome:
  "fst (executeCommand hang_host (req (u ''eval'') [(u ''code'', Str (u ''await new Promise(() => {})''))]) s) =
     Pending"
  by (simp add: eval_outcome hang_script)

lemma bare_outcome:
  "fst (executeCommand bare_host (req (u ''eval'') [(u ''code'', Str (u ''throw Object.create(null)''))]) s) =
     Threw BareObject"
  by (simp add: eval_outcome bare_script)

lemma calc_answered: "answered calc_host calc_text s"
  by (simp add: answered_def calc_parse eval_outcome calc_script)

lemma hang_unanswered: "\<not> answered hang_host hang_text s"
  by (simp add: answered_def hang_parse hang_outcome)

lemma quiet_parse:
  "json_parse quiet_host d = Inl (Error (u ''SyntaxError'') (u ''Unexpected end of JSON input''))"
  by (simp add: quiet_host_def)




section \<open>The subscriber set under subscribe and unsubscribe\<close>

lemma list_ex_same_Str [simp]: "list_ex (same_value (Str url)) S \<longleftrightarrow> Str url \<in> set S"
  by (auto simp: list_ex_iff same_value_def)

lemma set_add_Str: "set_add S (Str url) = (if Str url \<in> set S then S else S @ [Str url])"
  by (simp add: set_add_def)

lemma set_delete_Str: "set_delete S (Str url) = removeAll (Str url) S"
  by (induction S) (auto simp: set_delete_def same_value_def)

lemma subscribe_url:
  assumes "map_of ps (u ''url'') = Some (Str url)" and "url \<noteq> []"
  shows "executeCommand h (req (u ''subscribe'') ps) s =
     (Returned (Obj [(u ''success'', Bool True),
                     (u ''message'', Str (u ''Subscribed to '' @ url)),
                     (u ''subscribers'', Arr (set_add (subscribers s) (Str url)))]),
      appendLine (check_mark @ u '' Subscribed: '' @ url)
        (emit (Progress (Executing (Str (u ''subscribe'')))) s
           \<lparr>subscribers := set_add (subscribers s) (Str url)\<rparr>))"
  using assms by (simp add: executeCommand_req dispatch_subscribe subscribe_handler_def Let_def)

lemma unsubscribe_url:
  assumes "map_of ps (u ''url'') = Some (Str url)" and "url \<noteq> []"
  shows "executeCommand h (req (u ''unsubscribe'') ps) s =
     (Returned (Obj [(u ''success'', Bool True),
                     (u ''message'', Str (u ''Unsubscribed from '' @ url))]),
      appendLine (check_mark @ u '' Unsubscribed: '' @ url)
        (emit (Progress (Executing (Str (u ''unsubscribe'')))) s
           \<lparr>subscribers := set_delete (subscribers s) (Str url)\<rparr>))"
  using assms by (simp add: executeCommand_req dispatch_unsubscribe unsubscribe_handler_def Let_def)

lemma op_step_set:
  assumes "op_url op \<noteq> []"
  shows "set (subscribers (snd (executeCommand h (op_request op) s))) = set_op (set (subscribers s)) op"
proof (cases op)
  case (Subscribe url)
  with assms show ?thesis by (auto simp: subscribe_url set_add_Str)
next
  case (Unsubscribe url)
  with assms show ?thesis by (simp add: unsubscribe_url set_delete_Str)
qed

lemma op_step_distinct:
  assumes "op_url op \<noteq> []" and "distinct (subscribers s)"
  shows "distinct (subscribers (snd (executeCommand h (op_request op) s)))"
proof (cases op)
  case (Subscribe url)
  with assms show ?thesis by (simp add: subscribe_url set_add_Str)
next
  case (Unsubscribe url)
  with assms show ?thesis by (simp add: unsubscribe_url set_delete_Str distinct_removeAll)
qed

lemma run_ops_set:
  assumes "list_all (\<lambda>op. op_url op \<noteq> []) ops"
  shows "set (subscribers (run_ops h ops s)) = foldl set_op (set (subscribers s)) ops"
  using assms
proof (induction ops arbitrary: s)
  case Nil
  then show ?case by (simp add: run_ops_def)
next
  case (Cons op ops)
  then have "set (subscribers (run_ops h ops (snd (executeCommand h (op_request op) s)))) =
      foldl set_op (set (subscribers (snd (executeCommand h (op_request op) s)))) ops"
    by simp
  then show ?case using Cons.prems by (simp add: run_ops_def op_step_set)
qed

lemma run_ops_distinct:
  assumes "list_all (\<lambda>op. op_url op \<noteq> []) ops" and "distinct (subscribers s)"
  shows "distinct (subscribers (run_ops h ops s))"
  using assms
proof (induction ops arbitrary: s)
  case Nil
  then show ?case by (simp add: run_ops_def)
next
  case (Cons op ops)
  then have "distinct (subscribers (run_ops h ops (snd (executeCommand h (op_request op) s))))"
    by (simp add: op_step_distinct)
  then show ?case by (simp add: run_ops_def)
qed

text \<open>
  C6. For every subscriber set and every URL (a non-empty string): subscribing a URL that
  is already present leaves the set as it is and returns a success object; unsubscribing
  a URL that is absent leaves the set as it is and returns a success object; doing either
  twice gives the set that doing it once gives. For every sequence of subscribe and
  unsubscribe requests the final subscriber set is the one that inserting and removing
  the URLs in a set gives, and it holds no URL twice.
\<close>

theorem C6_subscribe_idempotent:
  "(url \<noteq> [] \<and> map_of ps (u ''url'') = Some (Str url) \<and> Str url \<in> set (subscribers s) \<longrightarrow>
      subscribers (snd (executeCommand h (req (u ''subscribe'') ps) s)) = subscribers s \<and>
      fst (executeCommand h (req (u ''subscribe'') ps) s) =
        Returned (Obj [(u ''success'', Bool True),
                       (u ''message'', Str (u ''Subscribed to '' @ url)),
                       (u ''subscribers'', Arr (subscribers s))])) \<and>
   (url \<noteq> [] \<and> map_of ps (u ''url'') = Some (Str url) \<and> Str url \<notin> set (subscribers s) \<longrightarrow>
      subscribers (snd (executeCommand h (req (u ''unsubscribe'') ps) s)) = subscribers s \<and>
      fst (executeCommand h (req (u ''unsubscribe'') ps) s) =
        Returned (Obj [(u ''success'', Bool True),
                       (u ''message'', Str (u ''Unsubscribed from '' @ url))])) \<and>
   (url \<noteq> [] \<longrightarrow>
      subscribers (run_ops h [Subscribe url, Subscribe url] s) = subscribers (run_ops h [Subscribe url] s) \<and>
      subscribers (run_ops h [Unsubscribe url, Unsubscribe url] s) =
        subscribers (run_ops h [Unsubscribe url] s)) \<and>
   (list_all (\<lambda>op. op_url op \<noteq> []) ops \<longrightarrow>
      set (subscribers (run_ops h ops s)) = foldl set_op (set (subscribers s)) ops \<and>
      (distinct (subscribers s) \<longrightarrow> distinct (subscribers (run_ops h ops s))))"
proof (intro conjI impI)
  assume a: "url \<noteq> [] \<and> map_of ps (u ''url'') = Some (Str url) \<and> Str url \<in> set (subscribers s)"
  then show "subscribers (snd (executeCommand h (req (u ''subscribe'') ps) s)) = subscribers s"
    by (simp add: subscribe_url set_add_Str)
  from a show "fst (executeCommand h (req (u ''subscribe'') ps) s) =
        Returned (Obj [(u ''success'', Bool True),
                       (u ''message'', Str (u ''Subscribed to '' @ url)),
                       (u ''subscribers'', Arr (subscribers s))])"
    by (simp add: subscribe_url set_add_Str)
next
  assume a: "url \<noteq> [] \<and> map_of ps (u ''url'') = Some (Str url) \<and> Str url \<notin> set (subscribers s)"
  then show "subscribers (snd (executeCommand h (req (u ''unsubscribe'') ps) s)) = subscribers s"
    by (simp add: unsubscribe_url set_delete_Str)
  from a show "fst (executeCommand h (req (u ''unsubscribe'') ps) s) =
        Returned (Obj [(u ''success'', Bool True),
                       (u ''message'', Str (u ''Unsubscribed from '' @ url))])"
    by (simp add: unsubscribe_url)
next
  assume "url \<noteq> []"
  then show "subscribers (run_ops h [Subscribe url, Subscribe url] s) =
      subscribers (run_ops h [Subscribe url] s)"
    by (simp add: run_ops_def subscribe_url set_add_Str)
next
  assume "url \<noteq> []"
  then show "subscribers (run_ops h [Unsubscribe url, Unsubscribe url] s) =
        subscribers (run_ops h [Unsubscribe url] s)"
    by (simp add: run_ops_def unsubscribe_url set_delete_Str)
next
  assume "list_all (\<lambda>op. op_url op \<noteq> []) ops"
  then show "set (subscribers (run_ops h ops s)) = foldl set_op (set (subscribers s)) ops"
    by (rule run_ops_set)
next
  assume "list_all (\<lambda>op. op_url op \<noteq> []) ops" and "distinct (subscribers s)"
  then show "distinct (subscribers (run_ops h ops s))"
    by (rule run_ops_distinct)
qed

theorem C6_subscribe_idempotent_witness:
  "subscribers (snd (executeCommand quiet_host (req (u ''subscribe'') [(u ''url'', Str (u ''http://a''))])
      (fresh\<lparr>subscribers := [Str (u ''http://a'')]\<rparr>))) = [Str (u ''http://a'')] \<and>
   subscribers (snd (executeCommand quiet_host (req (u ''unsubscribe'') [(u ''url'', Str (u ''http://b''))])
      (fresh\<lparr>subscribers := [Str (u ''http://a'')]\<rparr>))) = [Str (u ''http://a'')] \<and>
   set (subscribers (run_ops quiet_host
      [Subscribe (u ''http://b''), Subscribe (u ''http://b''), Unsubscribe (u ''http://a''),
       Unsubscribe (u ''http://c'')]
      (fresh\<lparr>subscribers := [Str (u ''http://a'')]\<rparr>))) = {Str (u ''http://b'')}"
proof -
  define s0 where "s0 = fresh\<lparr>subscribers := [Str (u ''http://a'')]\<rparr>"
  have subs: "subscribers s0 = [Str (u ''http://a'')]"
    by (simp add: s0_def)
  have ne: "u ''http://a'' \<noteq> []" "u ''http://b'' \<noteq> []" "u ''http://c'' \<noteq> []"
    by (simp_all add: u_def)
  have ab: "u ''http://b'' \<noteq> u ''http://a''" "u ''http://a'' \<noteq> u ''http://b''"
    "u ''http://a'' \<noteq> u ''http://c''" "u ''http://b'' \<noteq> u ''http://c''"
    by (simp_all add: u_def)
  have ma: "map_of [(u ''url'', Str (u ''http://a''))] (u ''url'') = Some (Str (u ''http://a''))"
    and mb: "map_of [(u ''url'', Str (u ''http://b''))] (u ''url'') = Some (Str (u ''http://b''))"
    by simp_all
  have ina: "Str (u ''http://a'') \<in> set (subscribers s0)"
    by (simp add: subs)
  have notb: "Str (u ''http://b'') \<notin> set (subscribers s0)"
    using ab by (simp add: subs)
  have 1: "subscribers (snd (executeCommand quiet_host
      (req (u ''subscribe'') [(u ''url'', Str (u ''http://a''))]) s0)) = subscribers s0"
    using C6_subscribe_idempotent [of "u ''http://a''" "[(u ''url'', Str (u ''http://a''))]"
        s0 quiet_host "[]", THEN conjunct1] ne(1) ma ina
    by blast
  have 2: "subscribers (snd (executeCommand quiet_host
      (req (u ''unsubscribe'') [(u ''url'', Str (u ''http://b''))]) s0)) = subscribers s0"
    using C6_subscribe_idempotent [of "u ''http://b''" "[(u ''url'', Str (u ''http://b''))]"
        s0 quiet_host "[]", THEN conjunct2, THEN conjunct1] ne(2) mb notb
    by blast
  have ops: "list_all (\<lambda>op. op_url op \<noteq> [])
      [Subscribe (u ''http://b''), Subscribe (u ''http://b''), Unsubscribe (u ''http://a''),
       Unsubscribe (u ''http://c'')]"
    using ne by simp
  have "set (subscribers (run_ops quiet_host
      [Subscribe (u ''http://b''), Subscribe (u ''http://b''), Unsubscribe (u ''http://a''),
       Unsubscribe (u ''http://c'')] s0)) =
     foldl set_op (set (subscribers s0))
      [Subscribe (u ''http://b''), Subscribe (u ''http://b''), Unsubscribe (u ''http://a''),
       Unsubscribe (u ''http://c'')]"
    using C6_subscribe_idempotent [of "u ''http://b''" "[]" s0 quiet_host
        "[Subscribe (u ''http://b''), Subscribe (u ''http://b''), Unsubscribe (u ''http://a''),
          Unsubscribe (u ''http://c'')]", THEN conjunct2, THEN conjunct2, THEN conjunct2] ops
    by blast
  also have "\<dots> = {Str (u ''http://b'')}"
    using ab by (auto simp: subs)
  finally have 3: "set (subscribers (run_ops quiet_host
      [Subscribe (u ''http://b''), Subscribe (u ''http://b''), Unsubscribe (u ''http://a''),
       Unsubscribe (u ''http://c'')] s0)) = {Str (u ''http://b'')}" .
  from 1 2 3 show ?thesis
    by (simp only: subs s0_def [symmetric])
qed

section \<open>Broadcast reaches every subscriber\<close>

lemma appendLines_subscribers [simp]: "subscribers (appendLines vs s) = subscribers s"
  by (induction vs arbitrary: s) simp_all

lemma appendLines_effects [simp]: "effects (appendLines vs s) = effects s"
  by (induction vs arbitrary: s) simp_all

lemma appendLines_channel [simp]: "channel (appendLines vs s) = channel s @ vs"
  by (induction vs arbitrary: s) simp_all

lemma emits_Nil [simp]: "emits [] s = s"
  by (simp add: emits_def)

lemma emits_emit: "emits es (emit e s) = emits (e # es) s"
  by (simp add: emits_def emit_def)

lemma emits_history [simp]: "outputHistory (emits es s) = outputHistory s"
  by (simp add: emits_def)

lemma emits_effects [simp]: "effects (emits es s) = effects s @ es"
  by (simp add: emits_def)

lemma emits_subscribers [simp]: "subscribers (emits es s) = subscribers s"
  by (simp add: emits_def)

lemma emits_channel [simp]: "channel (emits es s) = channel s"
  by (simp add: emits_def)

text \<open>The loop of \<open>broadcast\<close>.\<close>

lemma post_all_posts:
  "body_of h ev = Inr body \<Longrightarrow>
   post_all h ev s urls = (None, emits (map (\<lambda>url. Post url body) urls) s)"
  by (induction urls arbitrary: s) (simp_all add: emits_emit)

lemma post_all_throws:
  "body_of h ev = Inl e \<Longrightarrow>
   post_all h ev s urls = (if urls = [] then None else Some e, s)"
  by (cases urls) simp_all

text \<open>The handlers of the rejections.\<close>

lemma on_post_rejected_eq: "on_post_rejected url err s = appendLine (failure_line url err) s"
  by (simp add: on_post_rejected_def failure_line_def)

lemma on_posts_rejected_eq: "on_posts_rejected rs s = appendLines (failure_lines rs) s"
proof -
  have "foldl (\<lambda>s r. on_post_rejected (fst r) (snd r) s) s rs = appendLines (failure_lines rs) s" for s
    by (induction rs arbitrary: s) (simp_all add: failure_lines_def on_post_rejected_eq)
  then show ?thesis
    by (simp add: on_posts_rejected_def)
qed

lemma push_shift_cases:
  "length h \<le> 1000 \<Longrightarrow>
   push_shift h v = (if length h < 1000 then h @ [v] else tl h @ [v])"
  by (cases h) (auto simp: push_shift_def Let_def)


lemma audience_subscribers:
  "subscribers audience = [Str (u ''http://a''), Str (u ''http://b''), Str (u ''http://c'')]"
  by (simp add: audience_def)

lemma audience_empty:
  "effects audience = [] \<and> outputHistory audience = [] \<and> channel audience = []"
  by (simp add: audience_def fresh_def)


section \<open>A port already in use\<close>

lemma port_str: "int_str port = u ''9485''"
proof -
  have "digits 9485 = u ''9485''"
    by (simp add: digits.simps u_def)
  then show ?thesis by (simp add: int_str_safe port_def)
qed

text \<open>
  C8, as the code has it. \<^verbatim>\<open>startBridgeServer\<close> does not fail: it returns its
  instance before the outcome of \<^verbatim>\<open>listen\<close> is known. A bind failure arrives
  afterwards at the server's \<^verbatim>\<open>error\<close> listener. For the code
  \<^verbatim>\<open>EADDRINUSE\<close> the listener appends two lines of its own, the second the command
  that frees the port; for every other error it appends one generic line, which is never
  the line of the port in use.
\<close>

theorem C8_bind_error_logged:
  "on_server_event (ServerError (Some (u ''EADDRINUSE'')) e) s =
     appendLines [cross_mark @ u '' Port 9485 already in use'',
                  u ''Run: lsof -ti :9485 | xargs kill -9''] s \<and>
   (code \<noteq> Some (u ''EADDRINUSE'') \<longrightarrow>
      on_server_event (ServerError code e) s =
        appendLines [cross_mark @ u '' Server error: '' @ exnStr e] s) \<and>
   cross_mark @ u '' Server error: '' @ exnStr e \<noteq> cross_mark @ u '' Port 9485 already in use'' \<and>
   fst (startBridgeServer now) = \<lparr>startTime = now\<rparr>"
proof (intro conjI impI)
  have "cross_mark @ u '' Port '' @ int_str port @ u '' already in use'' =
      cross_mark @ u '' Port 9485 already in use''"
    by (simp add: port_str) (simp add: u_def)
  then show "on_server_event (ServerError (Some (u ''EADDRINUSE'')) e) s =
     appendLines [cross_mark @ u '' Port 9485 already in use'',
                  u ''Run: lsof -ti :9485 | xargs kill -9''] s"
    by simp
next
  assume "code \<noteq> Some (u ''EADDRINUSE'')"
  then show "on_server_event (ServerError code e) s =
        appendLines [cross_mark @ u '' Server error: '' @ exnStr e] s"
    by simp
next
  show "cross_mark @ u '' Server error: '' @ exnStr e \<noteq> cross_mark @ u '' Port 9485 already in use''"
    by (simp add: u_def)
next
  show "fst (startBridgeServer now) = \<lparr>startTime = now\<rparr>"
    by (simp add: startBridgeServer_def)
qed

theorem C8_bind_error_logged_witness:
  "channel (on_server_event (ServerError (Some (u ''EACCES'')) (Error (u ''Error'') (u ''listen EACCES''))) fresh) =
     [cross_mark @ u '' Server error: Error: listen EACCES''] \<and>
   channel (on_server_event (ServerError (Some (u ''EADDRINUSE'')) in_use) fresh) =
     [cross_mark @ u '' Port 9485 already in use'', u ''Run: lsof -ti :9485 | xargs kill -9'']"
proof -
  have ne: "Some (u ''EACCES'') \<noteq> Some (u ''EADDRINUSE'')"
    by (simp add: u_def)
  have "on_server_event (ServerError (Some (u ''EACCES'')) (Error (u ''Error'') (u ''listen EACCES''))) fresh =
      appendLines [cross_mark @ u '' Server error: '' @ exnStr (Error (u ''Error'') (u ''listen EACCES''))] fresh"
    using C8_bind_error_logged [of "Error (u ''Error'') (u ''listen EACCES'')" fresh "Some (u ''EACCES'')" 0] ne
    by blast
  moreover have "cross_mark @ u '' Server error: '' @ exnStr (Error (u ''Error'') (u ''listen EACCES'')) =
      cross_mark @ u '' Server error: Error: listen EACCES''"
    by (simp add: u_def)
  moreover have "on_server_event (ServerError (Some (u ''EADDRINUSE'')) in_use) fresh =
     appendLines [cross_mark @ u '' Port 9485 already in use'',
                  u ''Run: lsof -ti :9485 | xargs kill -9''] fresh"
    using C8_bind_error_logged [of in_use fresh None 0] by blast
  ultimately show ?thesis
    by (simp add: fresh_def)
qed

text \<open>
  The start command with the port already bound: the instance is returned and kept, the
  user is told the bridge has started, and the bind failure shows only as lines of the
  output channel.
\<close>

theorem C8_start_returns_counterexample:
  "bridgeInstance (bridge_start 5 idle_app) = Some \<lparr>startTime = 5\<rparr> \<and>
   shown (bridge_start 5 idle_app) =
     [Info (u ''ClarityOS Bridge started on port 9485''), LogState (u ''bridge_started'')] \<and>
   channel (on_server_event (ServerError (Some (u ''EADDRINUSE'')) in_use) (srv (bridge_start 5 idle_app))) =
     [u ''=== CLI Bridge Started ==='', u ''Listening on port 9485'',
      cross_mark @ u '' Port 9485 already in use'', u ''Run: lsof -ti :9485 | xargs kill -9'']"
proof -
  have 1: "u ''Listening on port '' @ int_str port = u ''Listening on port 9485''"
    by (simp add: port_str) (simp add: u_def)
  have 2: "cross_mark @ u '' Port '' @ int_str port @ u '' already in use'' =
      cross_mark @ u '' Port 9485 already in use''"
    by (simp add: port_str) (simp add: u_def)
  show ?thesis
    by (simp add: bridge_start_def idle_app_def startBridgeServer_def Let_def fresh_def 1 2)
qed

section \<open>The capacity in every reachable state\<close>

lemma wc_appendLine: "within_capacity s \<Longrightarrow> within_capacity (appendLine v s)"
  by (simp add: within_capacity_def push_shift_bounded)

lemma wc_appendLines: "within_capacity s \<Longrightarrow> within_capacity (appendLines vs s)"
  by (simp add: within_capacity_def appendLines_bounded)

lemma wc_emit: "within_capacity (emit e s) = within_capacity s"
  by (simp add: within_capacity_def)

lemma wc_subscribers: "within_capacity (s\<lparr>subscribers := S\<rparr>) = within_capacity s"
  by (simp add: within_capacity_def)

lemma wc_restart: "within_capacity s \<Longrightarrow> within_capacity (snd (restartExtension_handler s))"
  by (simp add: restartExtension_handler_def wc_emit)

lemma wc_eval: "within_capacity s \<Longrightarrow> within_capacity (snd (eval_handler h p s))"
  by (simp add: eval_handler_def Let_def wc_appendLines split: sum.splits)

lemma wc_webview: "within_capacity s \<Longrightarrow> within_capacity (snd (webview_handler h p s))"
  by (simp add: webview_handler_def Let_def wc_emit split: sum.splits option.splits)

lemma wc_register: "within_capacity s \<Longrightarrow> within_capacity (snd (registerConfig_handler h p s))"
  by (simp add: registerConfig_handler_def Let_def split: sum.splits)

lemma wc_unregister: "within_capacity s \<Longrightarrow> within_capacity (snd (unregisterConfig_handler h p s))"
  by (simp add: unregisterConfig_handler_def split: sum.splits)

lemma wc_subscribe: "within_capacity s \<Longrightarrow> within_capacity (snd (subscribe_handler p s))"
  by (simp add: subscribe_handler_def Let_def wc_appendLine wc_subscribers split: sum.splits)

lemma wc_unsubscribe: "within_capacity s \<Longrightarrow> within_capacity (snd (unsubscribe_handler p s))"
  by (simp add: unsubscribe_handler_def Let_def wc_appendLine wc_subscribers split: sum.splits)

lemma wc_list: "within_capacity s \<Longrightarrow> within_capacity (snd (listSubscribers_handler s))"
  by (simp add: listSubscribers_handler_def)

lemma wc_getOutput: "within_capacity s \<Longrightarrow> within_capacity (snd (getOutput_handler h p s))"
  by (simp add: getOutput_handler_def Let_def split: sum.splits)

lemma wc_dispatch: "within_capacity s \<Longrightarrow> within_capacity (snd (dispatch h m p s))"
  by (simp add: dispatch_def wc_restart wc_eval wc_webview wc_register wc_unregister wc_subscribe
      wc_unsubscribe wc_list wc_getOutput)

lemma wc_executeCommand: "within_capacity s \<Longrightarrow> within_capacity (snd (executeCommand h r s))"
  by (simp add: executeCommand_def wc_dispatch wc_emit split: sum.splits)

lemma wc_on_catch: "within_capacity (fst c) \<Longrightarrow> within_capacity (fst (on_catch h t c))"
  by (simp add: on_catch_def wc_appendLine wc_emit split: sum.splits)

lemma wc_respond: "within_capacity (fst c) \<Longrightarrow> within_capacity (fst (respond h out c))"
  by (cases out) (simp_all add: respond_def Let_def wc_appendLine wc_on_catch)

lemma wc_on_data: "within_capacity (fst c) \<Longrightarrow> within_capacity (fst (on_data h d c))"
proof (cases "json_parse h d")
  case (Inl e)
  assume "within_capacity (fst c)"
  with Inl show ?thesis by (simp add: on_data_def wc_on_catch)
next
  case (Inr request)
  assume "within_capacity (fst c)"
  then have "within_capacity (snd (executeCommand h request (log_input h request (fst c))))"
    by (simp add: wc_executeCommand log_input_def wc_appendLine)
  with Inr show ?thesis
    by (simp add: on_data_def Let_def wc_respond)
qed

lemma wc_on_event: "within_capacity (fst c) \<Longrightarrow> within_capacity (fst (on_event h c e))"
proof (cases e)
  case (Data d)
  assume w: "within_capacity (fst c)"
  show ?thesis
  proof (cases "json_parse h d")
    case (Inl x)
    from w have "within_capacity (fst (on_catch h (Plain x) (fst c, socket_calls (snd c))))"
      by (simp add: wc_on_catch)
    with Data Inl show ?thesis by (simp add: Let_def)
  next
    case (Inr request)
    from w have "within_capacity (snd (executeCommand h request (log_input h request (fst c))))"
      by (simp add: wc_executeCommand log_input_def wc_appendLine)
    with Data Inr show ?thesis by (simp add: Let_def)
  qed
next
  case (Resume i)
  assume w: "within_capacity (fst c)"
  then have "within_capacity (fst (respond h out (fst c, socket_calls (snd c))))" for out
    by (simp add: wc_respond)
  with w Resume show ?thesis by (simp add: Let_def)
next
  case (SockError x)
  assume "within_capacity (fst c)"
  with SockError show ?thesis by (simp add: on_socket_error_def wc_appendLine)
qed

lemma wc_handleConnection:
  "within_capacity s \<Longrightarrow> within_capacity (fst (handleConnection h evs s))"
proof -
  have "within_capacity (fst c) \<Longrightarrow> within_capacity (fst (foldl (on_event h) c evs))" for c
    by (induction evs arbitrary: c) (simp_all add: wc_on_event)
  then show "within_capacity s \<Longrightarrow> within_capacity (fst (handleConnection h evs s))"
    by (simp add: handleConnection_def)
qed

lemma wc_post_all: "within_capacity s \<Longrightarrow> within_capacity (snd (post_all h ev s urls))"
  by (induction urls arbitrary: s) (simp_all add: wc_emit split: sum.splits)

lemma wc_broadcast: "within_capacity s \<Longrightarrow> within_capacity (snd (broadcast h ev s))"
  by (simp add: broadcast_def wc_post_all)

lemma wc_post_rejected: "within_capacity s \<Longrightarrow> within_capacity (on_post_rejected url err s)"
  by (simp add: on_post_rejected_def wc_appendLine)

lemma wc_posts_rejected: "within_capacity s \<Longrightarrow> within_capacity (on_posts_rejected rs s)"
proof -
  have "within_capacity s \<Longrightarrow>
      within_capacity (foldl (\<lambda>s r. on_post_rejected (fst r) (snd r) s) s rs)" for s
    by (induction rs arbitrary: s) (simp_all add: wc_post_rejected)
  then show "within_capacity s \<Longrightarrow> within_capacity (on_posts_rejected rs s)"
    by (simp add: on_posts_rejected_def)
qed

lemma wc_start: "within_capacity (snd (startBridgeServer now))"
  by (simp add: startBridgeServer_def within_capacity_def push_shift_length fresh_def)

lemma wc_server_event: "within_capacity s \<Longrightarrow> within_capacity (on_server_event ev s)"
  by (cases ev) (simp_all add: wc_appendLine wc_emit)

lemma wc_dispose: "within_capacity s \<Longrightarrow> within_capacity (dispose err s)"
  by (simp add: dispose_def wc_appendLine split: option.splits)

text \<open>
  C5. For every sequence of appends, starting from the empty history of a new server or
  from any history within the capacity, the history never holds more than 1000 lines:
  an append puts the line at the tail and, when that makes 1001 lines, drops the head.
  Every line the server writes goes through this append, so the state a start returns is
  within the capacity, and every connection, whatever its events and however its
  listeners interleave, every broadcast with the handlers of its failed POSTs, every
  server event and the disposal keep it so.
\<close>

theorem C5_history_bounded:
  "length (outputHistory (appendLines vs fresh)) \<le> 1000 \<and>
   (length (outputHistory s) \<le> 1000 \<longrightarrow>
      length (outputHistory (appendLine v s)) \<le> 1000 \<and>
      length (outputHistory (appendLines vs s)) \<le> 1000 \<and>
      outputHistory (appendLine v s) =
        (if length (outputHistory s) < 1000 then outputHistory s @ [v]
         else tl (outputHistory s) @ [v])) \<and>
   within_capacity (snd (startBridgeServer now)) \<and>
   (within_capacity s \<longrightarrow>
      within_capacity (fst (handleConnection h evs s)) \<and>
      within_capacity (snd (broadcast h ev s)) \<and>
      within_capacity (on_post_rejected url err s) \<and>
      within_capacity (on_posts_rejected rs (snd (broadcast h ev s))) \<and>
      within_capacity (on_server_event sev s) \<and>
      within_capacity (dispose cerr s))"
proof -
  have "length (outputHistory (appendLines vs fresh)) \<le> 1000"
    by (rule appendLines_bounded) (simp add: fresh_def)
  moreover have "outputHistory (appendLine v s) =
        (if length (outputHistory s) < 1000 then outputHistory s @ [v]
         else tl (outputHistory s) @ [v])" if "length (outputHistory s) \<le> 1000"
    using that by (simp add: push_shift_cases)
  ultimately show ?thesis
    by (simp add: push_shift_bounded appendLines_bounded wc_start wc_handleConnection
        wc_broadcast wc_post_rejected wc_posts_rejected wc_server_event wc_dispose)
qed

theorem C5_history_bounded_witness:
  "length (outputHistory fresh) \<le> 1000 \<and>
   length (outputHistory (appendLines [u ''a'', u ''b''] fresh)) \<le> 1000 \<and>
   outputHistory (appendLine (u ''c'') fresh) = [u ''c''] \<and>
   within_capacity (fst (handleConnection calc_host [Data calc_text, Resume 0] fresh)) \<and>
   within_capacity (snd (broadcast calc_host (Json Null) fresh)) \<and>
   within_capacity (on_post_rejected (Str (u ''http://b'')) fetch_failed fresh)"
proof -
  have w: "within_capacity fresh"
    by (simp add: within_capacity_def fresh_def)
  note t = C5_history_bounded [where vs = "[u ''a'', u ''b'']" and s = fresh and v = "u ''c''"
      and now = 0 and h = calc_host and evs = "[Data calc_text, Resume 0]" and ev = "Json Null"
      and sev = Listening and url = "Str (u ''http://b'')" and err = fetch_failed and rs = "[]"
      and cerr = None]
  have "length (outputHistory fresh) \<le> 1000 \<and>
   length (outputHistory (appendLines [u ''a'', u ''b''] fresh)) \<le> 1000 \<and>
   outputHistory (appendLine (u ''c'') fresh) = [u ''c'']"
    using t by (simp add: fresh_def)
  moreover have "within_capacity (fst (handleConnection calc_host [Data calc_text, Resume 0] fresh)) \<and>
   within_capacity (snd (broadcast calc_host (Json Null) fresh)) \<and>
   within_capacity (on_post_rejected (Str (u ''http://b'')) fetch_failed fresh)"
    using t w by blast
  ultimately show ?thesis by simp
qed

end
